theory Spec2Isabelle
  imports Main "HOL-Library.Char_ord" "HOL-Library.List_Lexorder" "HOL-Library.Multiset"
begin

section \<open>The file server of midserve\<close>

text \<open>
  The handler is the repository's copy of Go's \<^verbatim>\<open>net/http.FileServer\<close>:
  \<^verbatim>\<open>fileHandler.ServeHTTP\<close>, \<^verbatim>\<open>serveFile\<close>, \<^verbatim>\<open>localRedirect\<close>, \<^verbatim>\<open>toHTTPError\<close>,
  \<^verbatim>\<open>Error\<close>, \<^verbatim>\<open>checkIfModifiedSince\<close>, \<^verbatim>\<open>writeNotModified\<close>, \<^verbatim>\<open>setLastModified\<close>
  and \<^verbatim>\<open>dirList\<close>. Go strings are byte strings, here \<^typ>\<open>string\<close>; the order on
  them is the lexicographic order of the bytes.
\<close>

subsection \<open>Package strings\<close>

definition HasPrefix :: "string \<Rightarrow> string \<Rightarrow> bool" where
  "HasPrefix s p = (length s \<ge> length p \<and> take (length p) s = p)"

definition HasSuffix :: "string \<Rightarrow> string \<Rightarrow> bool" where
  "HasSuffix s suffix = (length s \<ge> length suffix \<and> drop (length s - length suffix) s = suffix)"

definition TrimSuffix :: "string \<Rightarrow> string \<Rightarrow> string" where
  "TrimSuffix s suffix = (if HasSuffix s suffix then take (length s - length suffix) s else s)"

subsection \<open>Package time\<close>

text \<open>
  A \<^verbatim>\<open>time.Time\<close> is an instant: the nanoseconds since the zero time, January 1 of
  year 1, 00:00:00 UTC. \<^verbatim>\<open>IsZero\<close>, \<^verbatim>\<open>Equal\<close>, \<^verbatim>\<open>Before\<close> and \<^verbatim>\<open>Truncate\<close> read
  nothing but the instant (neither the location nor the monotonic clock reading).
\<close>

type_synonym Time = int

definition Second :: int where
  "Second = 1000000000"

definition time_Unix :: "int \<Rightarrow> int \<Rightarrow> Time" where
  "time_Unix sec nsec = (sec + 62135596800) * Second + nsec"

definition IsZero :: "Time \<Rightarrow> bool" where
  "IsZero t = (t = 0)"

definition Equal :: "Time \<Rightarrow> Time \<Rightarrow> bool" where
  "Equal t u = (t = u)"

definition Before :: "Time \<Rightarrow> Time \<Rightarrow> bool" where
  "Before t u = (t < u)"

definition Truncate :: "Time \<Rightarrow> int \<Rightarrow> Time" where
  "Truncate t d = (if d \<le> 0 then t else t - t mod d)"

definition unixEpochTime :: Time where
  "unixEpochTime = time_Unix 0 0"

subsection \<open>Headers, requests and the response writer\<close>

text \<open>
  An \<^verbatim>\<open>http.Header\<close> is a map from keys to lists of values. \<^verbatim>\<open>Get\<close> and \<^verbatim>\<open>Set\<close>
  canonicalise the key first; every key of this program (\<^verbatim>\<open>Location\<close>, \<^verbatim>\<open>Content-Type\<close>,
  \<^verbatim>\<open>Content-Length\<close>, \<^verbatim>\<open>X-Content-Type-Options\<close>, \<^verbatim>\<open>Last-Modified\<close>,
  \<^verbatim>\<open>If-Modified-Since\<close>, \<^verbatim>\<open>Etag\<close>) is canonical already. The built-in \<^verbatim>\<open>delete\<close>
  removes the key as it is written.
\<close>

type_synonym Header = "string \<rightharpoonup> string list"

definition Get :: "Header \<Rightarrow> string \<Rightarrow> string" where
  "Get h key = (case h key of None \<Rightarrow> [] | Some [] \<Rightarrow> [] | Some (v # _) \<Rightarrow> v)"

definition Set :: "Header \<Rightarrow> string \<Rightarrow> string \<Rightarrow> Header" where
  "Set h key v = h(key \<mapsto> [v])"

definition delete :: "Header \<Rightarrow> string \<Rightarrow> Header" where
  "delete h key = h(key := None)"

record Request =
  Method :: string
  URL_Path :: string
  URL_RawQuery :: string
  Header :: Header

text \<open>
  The response writer as a recorder: the header map, the status code once
  \<^verbatim>\<open>WriteHeader\<close> has run (a second call changes nothing), and the body written so far.
  A write before any \<^verbatim>\<open>WriteHeader\<close> sends status 200 first.
\<close>

record ResponseWriter =
  w_header :: Header
  w_status :: "nat option"
  w_body :: string

definition WriteHeader :: "ResponseWriter \<Rightarrow> nat \<Rightarrow> ResponseWriter" where
  "WriteHeader w code = (if w_status w = None then w\<lparr>w_status := Some code\<rparr> else w)"

definition Write :: "ResponseWriter \<Rightarrow> string \<Rightarrow> ResponseWriter" where
  "Write w s = (let w1 = WriteHeader w 200 in w1\<lparr>w_body := w_body w1 @ s\<rparr>)"

definition fresh :: "Header \<Rightarrow> ResponseWriter" where
  "fresh h = \<lparr>w_header = h, w_status = None, w_body = []\<rparr>"

definition StatusMovedPermanently :: nat where "StatusMovedPermanently = 301"
definition StatusNotModified :: nat where "StatusNotModified = 304"
definition StatusForbidden :: nat where "StatusForbidden = 403"
definition StatusNotFound :: nat where "StatusNotFound = 404"
definition StatusInternalServerError :: nat where "StatusInternalServerError = 500"

subsection \<open>Library functions taken as parameters\<close>

text \<open>
  \<^verbatim>\<open>http.ParseTime\<close> (the three HTTP date formats; \<open>None\<close> is its error) and
  \<^verbatim>\<open>modtime.UTC().Format(http.TimeFormat)\<close> are calendar code of the standard
  library. The handler only passes their results on, so they are parameters.
\<close>

record Stdlib =
  http_ParseTime :: "string \<Rightarrow> Time option"
  Format_TimeFormat :: "Time \<Rightarrow> string"

subsection \<open>Conditional requests\<close>

datatype condResult = condNone | condTrue | condFalse

definition isZeroTime :: "Time \<Rightarrow> bool" where
  "isZeroTime t = (IsZero t \<or> Equal t unixEpochTime)"

definition checkIfModifiedSince :: "Stdlib \<Rightarrow> Request \<Rightarrow> Time \<Rightarrow> condResult" where
  "checkIfModifiedSince lib r modtime =
    (if Method r \<noteq> ''GET'' \<and> Method r \<noteq> ''HEAD'' then condNone
     else
       let ims = Get (Header r) ''If-Modified-Since'' in
       if ims = [] \<or> isZeroTime modtime then condNone
       else
         (case http_ParseTime lib ims of
            None \<Rightarrow> condNone
          | Some t \<Rightarrow>
              let modtime' = Truncate modtime Second in
              if Before modtime' t \<or> Equal modtime' t then condFalse else condTrue))"

subsection \<open>Package path\<close>

text \<open>
  \<^verbatim>\<open>path.Clean\<close>. The lazy buffer \<^verbatim>\<open>out\<close> is the string it denotes (its first
  \<^verbatim>\<open>out.w\<close> bytes), \<^verbatim>\<open>r\<close> is the input not yet read, \<^verbatim>\<open>dotdot\<close> the index where
  backtracking stops. On a \<^verbatim>\<open>..\<close> element the write index steps back once and then
  further while it is above \<^verbatim>\<open>dotdot\<close> and the byte under it is not a slash.
\<close>

fun backtrack :: "string \<Rightarrow> nat \<Rightarrow> nat \<Rightarrow> nat" where
  "backtrack buf dotdot w =
     (if w > dotdot \<and> buf ! w \<noteq> CHR ''/'' then backtrack buf dotdot (w - 1) else w)"

declare backtrack.simps [simp del]

definition notSlash :: "char \<Rightarrow> bool" where
  "notSlash c = (c \<noteq> CHR ''/'')"

function Clean_loop :: "bool \<Rightarrow> string \<Rightarrow> string \<Rightarrow> nat \<Rightarrow> string" where
  "Clean_loop rooted [] out dotdot = out"
| "Clean_loop rooted (c # t) out dotdot =
     (if c = CHR ''/'' then Clean_loop rooted t out dotdot
      else if c = CHR ''.'' \<and> (t = [] \<or> hd t = CHR ''/'') then Clean_loop rooted t out dotdot
      else if c = CHR ''.'' \<and> hd t = CHR ''.'' \<and> (tl t = [] \<or> hd (tl t) = CHR ''/'') then
        (if length out > dotdot then
           Clean_loop rooted (tl t) (take (backtrack out dotdot (length out - 1)) out) dotdot
         else if \<not> rooted then
           (let out1 = (if length out > 0 then out @ ''/'' else out) @ ''..''
            in Clean_loop rooted (tl t) out1 (length out1))
         else Clean_loop rooted (tl t) out dotdot)
      else
        (let out1 = (if rooted \<and> length out \<noteq> 1 \<or> \<not> rooted \<and> length out \<noteq> 0
                     then out @ ''/'' else out)
         in Clean_loop rooted (dropWhile notSlash t) (out1 @ c # takeWhile notSlash t) dotdot))"
  by pat_completeness auto
termination
  by (relation "measure (\<lambda>(rooted, r, out, dotdot). length r)")
     (auto simp: less_Suc_eq_le length_dropWhile_le intro: le_trans [OF diff_le_self])

declare Clean_loop.simps [simp del]

definition Clean :: "string \<Rightarrow> string" where
  "Clean path =
     (if path = [] then ''.''
      else
        let rooted = (hd path = CHR ''/'');
            out = (if rooted then Clean_loop rooted (tl path) ''/'' 1
                   else Clean_loop rooted path [] 0)
        in if out = [] then ''.'' else out)"

text \<open>
  \<^verbatim>\<open>path.Base\<close>: strip the trailing slashes, keep what follows the last slash; the
  empty path gives a dot, a path of slashes only gives a slash.
\<close>

definition Base :: "string \<Rightarrow> string" where
  "Base path =
     (if path = [] then ''.''
      else
        let p1 = rev (dropWhile (\<lambda>c. c = CHR ''/'') (rev path));
            p2 = rev (takeWhile notSlash (rev p1))
        in if p2 = [] then ''/'' else p2)"

subsection \<open>Package net/url: the String method of a URL that has a path only\<close>

text \<open>
  \<^verbatim>\<open>dirList\<close> builds \<^verbatim>\<open>url.URL{Path: name}\<close>; scheme, opaque part, host, user, raw
  path, query and fragment are empty, so \<^verbatim>\<open>String\<close> writes the escaped path, after
  \<^verbatim>\<open>./\<close> when the first segment holds a colon. \<^verbatim>\<open>shouldEscape\<close> is read in mode
  \<^verbatim>\<open>encodePath\<close>.
\<close>

definition inRange :: "char \<Rightarrow> char \<Rightarrow> char \<Rightarrow> bool" where
  "inRange lo hi c = (lo \<le> c \<and> c \<le> hi)"

definition alnum :: "char \<Rightarrow> bool" where
  "alnum c = (inRange (CHR ''a'') (CHR ''z'') c \<or> inRange (CHR ''A'') (CHR ''Z'') c
              \<or> inRange (CHR ''0'') (CHR ''9'') c)"

definition shouldEscape :: "char \<Rightarrow> bool" where
  "shouldEscape c =
     (if alnum c then False
      else if c \<in> set ''-_.~'' then False
      else if c \<in> set ''$&+,/:;=?@'' then c = CHR ''?''
      else True)"

definition upperhex :: string where
  "upperhex = ''0123456789ABCDEF''"

definition escape :: "string \<Rightarrow> string" where
  "escape s = concat (map (\<lambda>c. if shouldEscape c
       then [CHR ''%'', upperhex ! (of_char c div 16), upperhex ! (of_char c mod 16)]
       else [c]) s)"

definition EscapedPath :: "string \<Rightarrow> string" where
  "EscapedPath path = (if path = ''*'' then ''*'' else escape path)"

definition URL_String :: "string \<Rightarrow> string" where
  "URL_String path =
     (let p = EscapedPath path
      in (if CHR '':'' \<in> set (takeWhile notSlash p) then ''./'' else []) @ p)"

subsection \<open>The HTML replacer\<close>

text \<open>
  \<^verbatim>\<open>strings.NewReplacer\<close> with one-byte old strings replaces every byte by the new
  string of its first pair, and keeps a byte that has no pair.
\<close>

definition dquote :: char where
  "dquote = CHR 0x22"

definition squote :: char where
  "squote = CHR 0x27"

definition htmlReplacer :: "(char \<times> string) list" where
  "htmlReplacer =
     [(CHR ''&'', ''&amp;''), (CHR ''<'', ''&lt;''), (CHR ''>'', ''&gt;''),
      (dquote, ''&#34;''), (squote, ''&#39;'')]"

definition Replace :: "(char \<times> string) list \<Rightarrow> string \<Rightarrow> string" where
  "Replace tbl s = concat (map (\<lambda>c. case map_of tbl c of Some new \<Rightarrow> new | None \<Rightarrow> [c]) s)"

subsection \<open>Package sort\<close>

text \<open>
  \<^verbatim>\<open>sort.Slice\<close> as the insertion sort the library runs on short slices: each element
  moves left while it is less than its left neighbour (the sorted prefix is held last
  element first). The library promises a sorted permutation, not stability, and above
  twelve elements it may order entries of equal names otherwise than this sort does; the
  theorems on the listing use sortedness and the permutation only, which leave one result
  when the names differ, as the names of the children of a directory do.
\<close>

fun insert_left :: "('a \<Rightarrow> 'a \<Rightarrow> bool) \<Rightarrow> 'a \<Rightarrow> 'a list \<Rightarrow> 'a list" where
  "insert_left lt x [] = [x]"
| "insert_left lt x (y # ys) = (if lt x y then y # insert_left lt x ys else x # y # ys)"

definition sort_Slice :: "('a \<Rightarrow> 'a \<Rightarrow> bool) \<Rightarrow> 'a list \<Rightarrow> 'a list" where
  "sort_Slice lt xs = rev (foldl (\<lambda>acc x. insert_left lt x acc) [] xs)"

subsection \<open>The file system\<close>

text \<open>
  An error value is its class (what \<^verbatim>\<open>os.IsNotExist\<close> and \<^verbatim>\<open>os.IsPermission\<close> say)
  and its text (\<^verbatim>\<open>err.Error()\<close>). A file answers \<^verbatim>\<open>Stat\<close> and \<^verbatim>\<open>Readdir(-1)\<close>;
  a file system answers \<^verbatim>\<open>Open\<close>. Its content is read by \<^verbatim>\<open>http.ServeContent\<close> only.
\<close>

datatype errclass = NotExist | Permission | Other

datatype os_error = OSError errclass string

fun os_IsNotExist :: "os_error \<Rightarrow> bool" where
  "os_IsNotExist (OSError c msg) = (c = NotExist)"

fun os_IsPermission :: "os_error \<Rightarrow> bool" where
  "os_IsPermission (OSError c msg) = (c = Permission)"

record FileInfo =
  Name :: string
  Size :: int
  ModTime :: Time
  IsDir :: bool

record File =
  Stat :: "os_error + FileInfo"
  Readdir :: "os_error + FileInfo list"

type_synonym FileSystem = "string \<Rightarrow> os_error + File"

subsection \<open>Redirects, errors and the not-modified response\<close>

definition localRedirect :: "ResponseWriter \<Rightarrow> Request \<Rightarrow> string \<Rightarrow> ResponseWriter" where
  "localRedirect w r newPath =
     (let newPath1 = (if URL_RawQuery r \<noteq> [] then newPath @ ''?'' @ URL_RawQuery r else newPath)
      in WriteHeader (w\<lparr>w_header := Set (w_header w) ''Location'' newPath1\<rparr>)
           StatusMovedPermanently)"

definition toHTTPError :: "os_error \<Rightarrow> string \<times> nat" where
  "toHTTPError err =
     (if os_IsNotExist err then (''404 page not found'', StatusNotFound)
      else if os_IsPermission err then (''403 Forbidden'', StatusForbidden)
      else (''500 Internal Server Error'', StatusInternalServerError))"

definition newline :: string where
  "newline = [CHR 0x0A]"

definition Fprintln :: "ResponseWriter \<Rightarrow> string \<Rightarrow> ResponseWriter" where
  "Fprintln w s = Write w (s @ newline)"

definition Error :: "ResponseWriter \<Rightarrow> string \<Rightarrow> nat \<Rightarrow> ResponseWriter" where
  "Error w error code =
     (let w1 = w\<lparr>w_header := Set (w_header w) ''Content-Type'' ''text/plain; charset=utf-8''\<rparr>;
          w2 = w1\<lparr>w_header := Set (w_header w1) ''X-Content-Type-Options'' ''nosniff''\<rparr>;
          w3 = WriteHeader w2 code
      in Fprintln w3 error)"

definition writeNotModified :: "ResponseWriter \<Rightarrow> ResponseWriter" where
  "writeNotModified w =
     (let h = w_header w;
          h1 = delete h ''Content-Type'';
          h2 = delete h1 ''Content-Length'';
          h3 = (if Get h2 ''Etag'' \<noteq> [] then delete h2 ''Last-Modified'' else h2)
      in WriteHeader (w\<lparr>w_header := h3\<rparr>) StatusNotModified)"

definition setLastModified :: "Stdlib \<Rightarrow> ResponseWriter \<Rightarrow> Time \<Rightarrow> ResponseWriter" where
  "setLastModified lib w modtime =
     (if \<not> isZeroTime modtime
      then w\<lparr>w_header := Set (w_header w) ''Last-Modified'' (Format_TimeFormat lib modtime)\<rparr>
      else w)"

subsection \<open>The directory listing\<close>

text \<open>
  A failure of \<^verbatim>\<open>Readdir\<close> is written to the server's error log by \<^verbatim>\<open>logf\<close> before
  the error response; the log is no part of a response and is left out. The deferred
  \<^verbatim>\<open>Close\<close> calls of \<^verbatim>\<open>serveFile\<close> are left out as well.
\<close>

definition entryName :: "FileInfo \<Rightarrow> string" where
  "entryName d = (if IsDir d then Name d @ ''/'' else Name d)"

definition anchor :: "FileInfo \<Rightarrow> string" where
  "anchor d =
     ''<a href='' @ [dquote] @ URL_String (entryName d) @ [dquote] @ ''>''
       @ Replace htmlReplacer (entryName d) @ ''</a>'' @ newline"

definition dirList :: "ResponseWriter \<Rightarrow> Request \<Rightarrow> File \<Rightarrow> ResponseWriter" where
  "dirList w r f =
     (case Readdir f of
        Inl err \<Rightarrow> Error w ''Error reading directory'' StatusInternalServerError
      | Inr dirs \<Rightarrow>
          let dirs1 = sort_Slice (\<lambda>a b. Name a < Name b) dirs;
              w1 = w\<lparr>w_header := Set (w_header w) ''Content-Type'' ''text/html; charset=utf-8''\<rparr>;
              w2 = Write w1 (''<pre>'' @ newline);
              w3 = foldl (\<lambda>w d. Write w (anchor d)) w2 dirs1
          in Write w3 (''</pre>'' @ newline))"

subsection \<open>serveFile and ServeHTTP\<close>

text \<open>
  A run of the handler ends with the response written, with the tail call of
  \<^verbatim>\<open>http.ServeContent(w, r, d.Name(), d.ModTime(), f)\<close> (library code, kept as the
  call it is), or with the panic of \<^verbatim>\<open>url[len(url)-1]\<close> on an empty path. Beside the
  result stands the list of the names given to \<^verbatim>\<open>fs.Open\<close>, in order.
\<close>

datatype Result =
    Written ResponseWriter
  | ServeContent ResponseWriter Request string Time File
  | Panic

definition indexPage :: string where
  "indexPage = ''/index.html''"

text \<open>Lines 132 to 145: the directory listing, or the content of the file.\<close>

definition serveFile_entry :: "Stdlib \<Rightarrow> ResponseWriter \<Rightarrow> Request \<Rightarrow> FileInfo \<Rightarrow> File \<Rightarrow> Result" where
  "serveFile_entry lib w r d f =
     (if IsDir d then
        (if checkIfModifiedSince lib r (ModTime d) = condFalse then Written (writeNotModified w)
         else Written (dirList (setLastModified lib w (ModTime d)) r f))
      else ServeContent w r (Name d) (ModTime d) f)"

text \<open>Lines 110 to 130: a directory is served through its index page when that opens.\<close>

definition serveFile_index ::
  "Stdlib \<Rightarrow> ResponseWriter \<Rightarrow> Request \<Rightarrow> FileSystem \<Rightarrow> string \<Rightarrow> FileInfo \<Rightarrow> File
     \<Rightarrow> Result \<times> string list" where
  "serveFile_index lib w r fs name d f =
     (if IsDir d then
        (let url = URL_Path r in
         if url = [] \<or> last url \<noteq> CHR ''/'' then
           (Written (localRedirect w r (Base url @ ''/'')), [name])
         else
           let index = TrimSuffix name ''/'' @ indexPage in
           (case fs index of
              Inr ff \<Rightarrow>
                (case Stat ff of
                   Inr dd \<Rightarrow> (serveFile_entry lib w r dd ff, [name, index])
                 | Inl err \<Rightarrow> (serveFile_entry lib w r d f, [name, index]))
            | Inl err \<Rightarrow> (serveFile_entry lib w r d f, [name, index])))
      else (serveFile_entry lib w r d f, [name]))"

text \<open>Lines 67 to 108: the index redirect, the open, the stat, the canonical path.\<close>

definition serveFile ::
  "Stdlib \<Rightarrow> ResponseWriter \<Rightarrow> Request \<Rightarrow> FileSystem \<Rightarrow> string \<Rightarrow> bool
     \<Rightarrow> Result \<times> string list" where
  "serveFile lib w r fs name redirect =
     (if HasSuffix (URL_Path r) indexPage then (Written (localRedirect w r ''./''), [])
      else
        (case fs name of
           Inl err \<Rightarrow> (Written (case toHTTPError err of (msg, code) \<Rightarrow> Error w msg code), [name])
         | Inr f \<Rightarrow>
             (case Stat f of
                Inl err \<Rightarrow>
                  (Written (case toHTTPError err of (msg, code) \<Rightarrow> Error w msg code), [name])
              | Inr d \<Rightarrow>
                  if redirect then
                    (let url = URL_Path r in
                     if url = [] then (Panic, [name])
                     else if IsDir d then
                       (if last url \<noteq> CHR ''/'' then
                          (Written (localRedirect w r (Base url @ ''/'')), [name])
                        else serveFile_index lib w r fs name d f)
                     else
                       (if last url = CHR ''/'' then
                          (Written (localRedirect w r (''../'' @ Base url)), [name])
                        else serveFile_index lib w r fs name d f))
                  else serveFile_index lib w r fs name d f)))"

definition ServeHTTP :: "Stdlib \<Rightarrow> FileSystem \<Rightarrow> ResponseWriter \<Rightarrow> Request \<Rightarrow> Result \<times> string list" where
  "ServeHTTP lib root w r =
     (let upath = URL_Path r;
          upath1 = (if \<not> HasPrefix upath ''/'' then ''/'' @ upath else upath);
          r1 = (if \<not> HasPrefix upath ''/'' then r\<lparr>URL_Path := upath1\<rparr> else r)
      in serveFile lib w r1 root (Clean upath1) True)"

subsection \<open>The file server with exclusion rules\<close>










subsection \<open>The client following a redirect\<close>

text \<open>
  The handler does not follow its redirects; a client does. Go's own client resolves the
  \<^verbatim>\<open>Location\<close> against the request URL with \<^verbatim>\<open>URL.ResolveReference\<close> (RFC 3986,
  section 5.2), whose path part is \<^verbatim>\<open>resolvePath\<close>: the reference replaces what follows
  the last slash of the base, then the dot segments are removed. \<^verbatim>\<open>followRedirect\<close> is
  the next request for a location made of a path and an optional query, without escapes.
\<close>

fun splitSlash :: "string \<Rightarrow> string list" where
  "splitSlash [] = [[]]"
| "splitSlash (c # cs) =
     (if c = CHR ''/'' then [] # splitSlash cs
      else (case splitSlash cs of x # xs \<Rightarrow> (c # x) # xs | [] \<Rightarrow> [[c]]))"

fun Join :: "string list \<Rightarrow> string \<Rightarrow> string" where
  "Join [] sep = []"
| "Join [x] sep = x"
| "Join (x # y # ys) sep = x @ sep @ Join (y # ys) sep"

definition TrimPrefix :: "string \<Rightarrow> string \<Rightarrow> string" where
  "TrimPrefix s p = (if HasPrefix s p then drop (length p) s else s)"

definition resolveStep :: "string list \<Rightarrow> string \<Rightarrow> string list" where
  "resolveStep dst elem =
     (if elem = ''.'' then dst
      else if elem = ''..'' then (if length dst > 0 then butlast dst else dst)
      else dst @ [elem])"

definition resolvePath :: "string \<Rightarrow> string \<Rightarrow> string" where
  "resolvePath base ref =
     (let full = (if ref = [] then base
                  else if hd ref \<noteq> CHR ''/'' then rev (dropWhile notSlash (rev base)) @ ref
                  else ref)
      in if full = [] then []
         else
           let src = splitSlash full;
               dst = foldl resolveStep [] src;
               dst1 = (if last src = ''.'' \<or> last src = ''..'' then dst @ [[]] else dst)
           in ''/'' @ TrimPrefix (Join dst1 ''/'') ''/'')"

definition followRedirect :: "Request \<Rightarrow> string \<Rightarrow> Request" where
  "followRedirect r loc =
     r\<lparr>URL_Path := resolvePath (URL_Path r) (takeWhile (\<lambda>c. c \<noteq> CHR ''?'') loc),
       URL_RawQuery := drop 1 (dropWhile (\<lambda>c. c \<noteq> CHR ''?'') loc)\<rparr>"

subsection \<open>Notions the properties are stated with\<close>

text \<open>The path \<^verbatim>\<open>ServeHTTP\<close> leaves in \<^verbatim>\<open>r.URL.Path\<close>: a slash is put in front when none leads.\<close>

definition requestPath :: "Request \<Rightarrow> string" where
  "requestPath r = (if HasPrefix (URL_Path r) ''/'' then URL_Path r else ''/'' @ URL_Path r)"

text \<open>The query part \<^verbatim>\<open>localRedirect\<close> appends to a location.\<close>

definition querySuffix :: "Request \<Rightarrow> string" where
  "querySuffix r = (if URL_RawQuery r = [] then [] else ''?'' @ URL_RawQuery r)"

text \<open>The name of the index page of a directory, as \<^verbatim>\<open>serveFile\<close> builds it.\<close>

definition indexName :: "string \<Rightarrow> string" where
  "indexName name = TrimSuffix name ''/'' @ indexPage"

text \<open>A directory has no index page when opening the index name, or its \<^verbatim>\<open>Stat\<close>, fails.\<close>

definition noIndex :: "FileSystem \<Rightarrow> string \<Rightarrow> bool" where
  "noIndex fs name =
     (case fs (indexName name) of
        Inl err \<Rightarrow> True
      | Inr ff \<Rightarrow> (case Stat ff of Inl err \<Rightarrow> True | Inr dd \<Rightarrow> False))"

text \<open>
  A lexically cleaned absolute path: cut at its slashes it starts with the empty string
  (the path starts with a slash), and what follows is either one empty string (the
  path is the root) or segments none of which is empty, a dot, or two dots. So it has
  no doubled slash and no trailing slash. \<open>joinAbs\<close> builds such a path from its segments.
\<close>

definition cleanedAbs :: "string \<Rightarrow> bool" where
  "cleanedAbs p =
     (case splitSlash p of
        [] \<Rightarrow> False
      | first # segs \<Rightarrow>
          first = [] \<and> segs \<noteq> []
          \<and> (segs = [[]] \<or> list_all (\<lambda>s. s \<noteq> [] \<and> s \<noteq> ''.'' \<and> s \<noteq> ''..'') segs))"

definition goodSegment :: "string \<Rightarrow> bool" where
  "goodSegment s = (s \<noteq> [] \<and> CHR ''/'' \<notin> set s \<and> s \<noteq> ''.'' \<and> s \<noteq> ''..'')"

definition joinAbs :: "string list \<Rightarrow> string" where
  "joinAbs segs = (if segs = [] then ''/'' else concat (map (\<lambda>s. CHR ''/'' # s) segs))"

text \<open>A response that is a redirect: written, with status 301.\<close>

fun isRedirect :: "Result \<Rightarrow> bool" where
  "isRedirect (Written w) = (w_status w = Some StatusMovedPermanently)"
| "isRedirect (ServeContent w r name modtime f) = False"
| "isRedirect Panic = False"

text \<open>The \<^verbatim>\<open>Location\<close> header of a written response.\<close>

fun location :: "Result \<Rightarrow> string" where
  "location (Written w) = Get (w_header w) ''Location''"
| "location (ServeContent w r name modtime f) = []"
| "location Panic = []"

subsection \<open>Example values\<close>

text \<open>Concrete library functions, requests and file systems on which the theorems are run.\<close>

definition exampleDate :: string where
  "exampleDate = ''Thu, 01 Jan 2015 00:00:00 GMT''"

definition exampleLib :: Stdlib where
  "exampleLib = \<lparr>http_ParseTime = (\<lambda>s. if s = exampleDate then Some (time_Unix 1420070400 0) else None),
                 Format_TimeFormat = (\<lambda>t. if Truncate t Second = time_Unix 1420070400 0 then exampleDate else [])\<rparr>"

definition exampleRequest :: "string \<Rightarrow> string \<Rightarrow> string \<Rightarrow> Header \<Rightarrow> Request" where
  "exampleRequest m p q h = \<lparr>Method = m, URL_Path = p, URL_RawQuery = q, Header = h\<rparr>"

definition exampleInfo :: "string \<Rightarrow> bool \<Rightarrow> Time \<Rightarrow> FileInfo" where
  "exampleInfo name isdir modtime = \<lparr>Name = name, Size = 0, ModTime = modtime, IsDir = isdir\<rparr>"

definition exampleDir :: "string \<Rightarrow> Time \<Rightarrow> FileInfo list \<Rightarrow> File" where
  "exampleDir name modtime children =
     \<lparr>Stat = Inr (exampleInfo name True modtime), Readdir = Inr children\<rparr>"

definition exampleRegular :: "string \<Rightarrow> Time \<Rightarrow> File" where
  "exampleRegular name modtime =
     \<lparr>Stat = Inr (exampleInfo name False modtime),
      Readdir = Inl (OSError Other ''readdirent: not a directory'')\<rparr>"

definition exampleModTime :: Time where
  "exampleModTime = time_Unix 1420070400 250000000"

definition docsChildren :: "FileInfo list" where
  "docsChildren =
     [exampleInfo ''b.txt'' False exampleModTime, exampleInfo ''.git'' True exampleModTime,
      exampleInfo ''sub'' True exampleModTime, exampleInfo ''a&<b>.txt'' False exampleModTime,
      exampleInfo ''B'' False exampleModTime]"

definition exampleFS :: FileSystem where
  "exampleFS name =
     (if name = ''/'' then
        Inr (exampleDir ''/'' exampleModTime
              [exampleInfo ''notes'' False exampleModTime, exampleInfo ''docs'' True exampleModTime])
      else if name = ''/docs'' then Inr (exampleDir ''docs'' exampleModTime docsChildren)
      else if name = ''/docs/sub'' then Inr (exampleDir ''sub'' exampleModTime [])
      else if name = ''/notes'' then Inr (exampleRegular ''notes'' exampleModTime)
      else if name = ''/secret'' then Inl (OSError Permission ''open /srv/secret: permission denied'')
      else if name = ''/broken'' then
        Inr \<lparr>Stat = Inr (exampleInfo ''broken'' True exampleModTime),
             Readdir = Inl (OSError Other ''readdirent /srv/broken: input/output error'')\<rparr>
      else if name = ''/odd'' then
        Inr \<lparr>Stat = Inl (OSError Other ''stat /srv/odd: stale file handle''),
             Readdir = Inr []\<rparr>
      else Inl (OSError NotExist (''open /srv'' @ name @ '': no such file or directory'')))"

definition missingFS :: FileSystem where
  "missingFS name = Inl (OSError NotExist ''open: no such file or directory'')"


text \<open>A file system whose root holds names with characters that HTML and URLs reserve.\<close>

definition namesChildren :: "FileInfo list" where
  "namesChildren =
     [exampleInfo ''what?#.d'' True exampleModTime, exampleInfo ''a&<b>.txt'' False exampleModTime,
      exampleInfo [CHR ''i'', CHR ''t'', CHR 0x27, CHR ''s''] False exampleModTime]"

definition namesFS :: FileSystem where
  "namesFS name =
     (if name = ''/'' then Inr (exampleDir ''/'' exampleModTime namesChildren)
      else Inl (OSError NotExist (''open /srv'' @ name @ '': no such file or directory'')))"

section \<open>Lemmas on the handler\<close>

subsection \<open>The request path and the response writer\<close>

text \<open>
  What the writing functions leave in a writer that has no status yet.
\<close>

lemma requestPath_nonempty: "requestPath r \<noteq> []"
  by (auto simp: requestPath_def HasPrefix_def)

lemma requestPath_hd: "hd (requestPath r) = CHR ''/''"
  by (cases "URL_Path r") (auto simp: requestPath_def HasPrefix_def)

lemma HasSuffix_append: "HasSuffix s x \<Longrightarrow> HasSuffix (p @ s) x"
  by (auto simp: HasSuffix_def)

lemma HasSuffix_Cons: "HasSuffix s x \<Longrightarrow> HasSuffix (c # s) x"
  using HasSuffix_append [of s x "[c]"] by simp

lemma HasSuffix_requestPath:
  "HasSuffix (URL_Path r) indexPage \<Longrightarrow> HasSuffix (requestPath r) indexPage"
  by (simp add: requestPath_def HasSuffix_Cons)

lemma slash_not_index: "p \<noteq> [] \<Longrightarrow> last p = CHR ''/'' \<Longrightarrow> \<not> HasSuffix p indexPage"
  by (auto simp: HasSuffix_def indexPage_def dest!: arg_cong [where f = last])

lemma querySuffix_path [simp]: "querySuffix (r\<lparr>URL_Path := p\<rparr>) = querySuffix r"
  by (simp add: querySuffix_def)

lemma checkIfModifiedSince_path [simp]:
  "checkIfModifiedSince lib (r\<lparr>URL_Path := p\<rparr>) modtime = checkIfModifiedSince lib r modtime"
  by (simp add: checkIfModifiedSince_def)

lemma fresh_sel [simp]:
  "w_header (fresh h) = h" "w_status (fresh h) = None" "w_body (fresh h) = []"
  by (simp_all add: fresh_def)

lemma localRedirect_fresh:
  "localRedirect (fresh h) r newPath =
     \<lparr>w_header = h(''Location'' \<mapsto> [newPath @ querySuffix r]),
      w_status = Some 301, w_body = []\<rparr>"
  by (simp add: localRedirect_def fresh_def WriteHeader_def Set_def querySuffix_def
        StatusMovedPermanently_def Let_def)

lemma status_localRedirect [simp]:
  "w_status (localRedirect (fresh h) r p) = Some StatusMovedPermanently"
  by (simp add: localRedirect_fresh StatusMovedPermanently_def)

lemma Error_unwritten:
  "w_status w = None \<Longrightarrow>
   Error w msg code =
     \<lparr>w_header = (w_header w)(''Content-Type'' \<mapsto> [''text/plain; charset=utf-8''],
                               ''X-Content-Type-Options'' \<mapsto> [''nosniff'']),
      w_status = Some code, w_body = w_body w @ msg @ newline\<rparr>"
  by (simp add: Error_def Fprintln_def Write_def WriteHeader_def Set_def Let_def)

lemma Error_fresh:
  "Error (fresh h) msg code =
     \<lparr>w_header = h(''Content-Type'' \<mapsto> [''text/plain; charset=utf-8''],
                    ''X-Content-Type-Options'' \<mapsto> [''nosniff'']),
      w_status = Some code, w_body = msg @ newline\<rparr>"
  by (simp add: Error_unwritten)

lemma toHTTPError_cases:
  "toHTTPError (OSError c msg) =
     (if c = NotExist then (''404 page not found'', 404)
      else if c = Permission then (''403 Forbidden'', 403)
      else (''500 Internal Server Error'', 500))"
  by (simp add: toHTTPError_def StatusNotFound_def StatusForbidden_def
        StatusInternalServerError_def)

lemma status_Error [simp]:
  "w_status (Error (fresh h) (fst (toHTTPError e)) (snd (toHTTPError e)))
     \<noteq> Some StatusMovedPermanently"
  by (cases e) (simp add: Error_fresh toHTTPError_cases StatusMovedPermanently_def)

lemma writeNotModified_unwritten:
  "w_status w = None \<Longrightarrow>
   writeNotModified w =
     \<lparr>w_header = (\<lambda>k. if k = ''Content-Type'' \<or> k = ''Content-Length''
                           \<or> (k = ''Last-Modified'' \<and> Get (w_header w) ''Etag'' \<noteq> [])
                        then None else w_header w k),
      w_status = Some 304, w_body = w_body w\<rparr>"
  by (auto simp: writeNotModified_def WriteHeader_def delete_def Get_def Let_def
        StatusNotModified_def fun_eq_iff)

lemma writeNotModified_fresh:
  "writeNotModified (fresh h) =
     \<lparr>w_header = (\<lambda>k. if k = ''Content-Type'' \<or> k = ''Content-Length''
                           \<or> (k = ''Last-Modified'' \<and> Get h ''Etag'' \<noteq> [])
                        then None else h k),
      w_status = Some 304, w_body = []\<rparr>"
  by (auto simp: writeNotModified_unwritten fun_eq_iff)

lemma Write_written:
  "w_status w = Some c \<Longrightarrow> Write w s = w\<lparr>w_body := w_body w @ s\<rparr>"
  by (simp add: Write_def WriteHeader_def)

lemma foldl_Write:
  "w_status w = Some c \<Longrightarrow>
   foldl (\<lambda>w d. Write w (g d)) w ds = w\<lparr>w_body := w_body w @ concat (map g ds)\<rparr>"
  by (induction ds arbitrary: w) (simp_all add: Write_written)

lemma dirList_unwritten:
  assumes "w_status w = None"
  shows "dirList w r f =
     (case Readdir f of
        Inl err \<Rightarrow>
          \<lparr>w_header = (w_header w)(''Content-Type'' \<mapsto> [''text/plain; charset=utf-8''],
                                    ''X-Content-Type-Options'' \<mapsto> [''nosniff'']),
           w_status = Some 500, w_body = w_body w @ ''Error reading directory'' @ newline\<rparr>
      | Inr dirs \<Rightarrow>
          \<lparr>w_header = (w_header w)(''Content-Type'' \<mapsto> [''text/html; charset=utf-8'']),
           w_status = Some 200,
           w_body = w_body w @ ''<pre>'' @ newline
             @ concat (map anchor (sort_Slice (\<lambda>a b. Name a < Name b) dirs))
             @ ''</pre>'' @ newline\<rparr>)"
proof (cases "Readdir f")
  case (Inl err)
  then show ?thesis using assms
    by (simp add: dirList_def Error_unwritten StatusInternalServerError_def)
next
  case (Inr dirs)
  let ?w1 = "w\<lparr>w_header := Set (w_header w) ''Content-Type'' ''text/html; charset=utf-8''\<rparr>"
  have w2: "Write ?w1 (''<pre>'' @ newline) =
      \<lparr>w_header = (w_header w)(''Content-Type'' \<mapsto> [''text/html; charset=utf-8'']),
       w_status = Some 200, w_body = w_body w @ ''<pre>'' @ newline\<rparr>"
    using assms by (simp add: Write_def WriteHeader_def Set_def)
  have "dirList w r f =
      Write (foldl (\<lambda>w d. Write w (anchor d)) (Write ?w1 (''<pre>'' @ newline))
               (sort_Slice (\<lambda>a b. Name a < Name b) dirs))
        (''</pre>'' @ newline)"
    using Inr by (simp only: dirList_def Let_def sum.case)
  also have "\<dots> =
      \<lparr>w_header = (w_header w)(''Content-Type'' \<mapsto> [''text/html; charset=utf-8'']),
       w_status = Some 200,
       w_body = w_body w @ ''<pre>'' @ newline
         @ concat (map anchor (sort_Slice (\<lambda>a b. Name a < Name b) dirs))
         @ ''</pre>'' @ newline\<rparr>"
    unfolding w2 by (simp add: foldl_Write [where c = 200] Write_written [where c = 200])
  finally show ?thesis using Inr by simp
qed

lemma setLastModified_fresh:
  "setLastModified lib (fresh h) modtime =
     fresh (if isZeroTime modtime then h else h(''Last-Modified'' \<mapsto> [Format_TimeFormat lib modtime]))"
  by (simp add: setLastModified_def fresh_def Set_def)

subsection \<open>The branches of serveFile\<close>

text \<open>
  One lemma for each way through \<^verbatim>\<open>ServeHTTP\<close> and \<^verbatim>\<open>serveFile\<close>.
\<close>

lemma ServeHTTP_serveFile:
  "ServeHTTP lib root w r =
     serveFile lib w (r\<lparr>URL_Path := requestPath r\<rparr>) root (Clean (requestPath r)) True"
  by (simp add: ServeHTTP_def requestPath_def Let_def)

lemma ServeHTTP_index_redirect:
  assumes "HasSuffix (URL_Path r) indexPage"
  shows "ServeHTTP lib root w r = (Written (localRedirect w (r\<lparr>URL_Path := requestPath r\<rparr>) ''./''), [])"
  using HasSuffix_requestPath [OF assms] by (simp add: ServeHTTP_serveFile serveFile_def)

lemma ServeHTTP_index_suffix:
  assumes "HasSuffix (requestPath r) indexPage"
  shows "ServeHTTP lib root w r = (Written (localRedirect w (r\<lparr>URL_Path := requestPath r\<rparr>) ''./''), [])"
  using assms by (simp add: ServeHTTP_serveFile serveFile_def)

lemma ServeHTTP_open_error:
  assumes "\<not> HasSuffix (requestPath r) indexPage"
    and "root (Clean (requestPath r)) = Inl err"
  shows "ServeHTTP lib root w r =
     (Written (Error w (fst (toHTTPError err)) (snd (toHTTPError err))), [Clean (requestPath r)])"
  using assms by (simp add: ServeHTTP_serveFile serveFile_def split: prod.splits)

lemma ServeHTTP_stat_error:
  assumes "\<not> HasSuffix (requestPath r) indexPage"
    and "root (Clean (requestPath r)) = Inr f" and "Stat f = Inl err"
  shows "ServeHTTP lib root w r =
     (Written (Error w (fst (toHTTPError err)) (snd (toHTTPError err))), [Clean (requestPath r)])"
  using assms by (simp add: ServeHTTP_serveFile serveFile_def split: prod.splits)

lemma ServeHTTP_dir_no_slash:
  assumes "\<not> HasSuffix (requestPath r) indexPage"
    and "root (Clean (requestPath r)) = Inr f" and "Stat f = Inr d"
    and "IsDir d" and "last (requestPath r) \<noteq> CHR ''/''"
  shows "ServeHTTP lib root w r =
     (Written (localRedirect w (r\<lparr>URL_Path := requestPath r\<rparr>) (Base (requestPath r) @ ''/'')),
      [Clean (requestPath r)])"
  using assms by (simp add: ServeHTTP_serveFile serveFile_def requestPath_nonempty Let_def)

lemma ServeHTTP_file_slash:
  assumes "\<not> HasSuffix (requestPath r) indexPage"
    and "root (Clean (requestPath r)) = Inr f" and "Stat f = Inr d"
    and "\<not> IsDir d" and "last (requestPath r) = CHR ''/''"
  shows "ServeHTTP lib root w r =
     (Written (localRedirect w (r\<lparr>URL_Path := requestPath r\<rparr>) (''../'' @ Base (requestPath r))),
      [Clean (requestPath r)])"
  using assms by (simp add: ServeHTTP_serveFile serveFile_def requestPath_nonempty Let_def)

lemma ServeHTTP_file:
  assumes "\<not> HasSuffix (requestPath r) indexPage"
    and "root (Clean (requestPath r)) = Inr f" and "Stat f = Inr d"
    and "\<not> IsDir d" and "last (requestPath r) \<noteq> CHR ''/''"
  shows "ServeHTTP lib root w r =
     (ServeContent w (r\<lparr>URL_Path := requestPath r\<rparr>) (Name d) (ModTime d) f,
      [Clean (requestPath r)])"
  using assms
  by (simp add: ServeHTTP_serveFile serveFile_def serveFile_index_def serveFile_entry_def
        requestPath_nonempty Let_def)

lemma ServeHTTP_dir_slash:
  assumes "\<not> HasSuffix (requestPath r) indexPage"
    and "root (Clean (requestPath r)) = Inr f" and "Stat f = Inr d"
    and "IsDir d" and "last (requestPath r) = CHR ''/''"
  shows "ServeHTTP lib root w r =
     (case root (indexName (Clean (requestPath r))) of
        Inr ff \<Rightarrow>
          (case Stat ff of
             Inr dd \<Rightarrow> serveFile_entry lib w (r\<lparr>URL_Path := requestPath r\<rparr>) dd ff
           | Inl err \<Rightarrow> serveFile_entry lib w (r\<lparr>URL_Path := requestPath r\<rparr>) d f)
      | Inl err \<Rightarrow> serveFile_entry lib w (r\<lparr>URL_Path := requestPath r\<rparr>) d f,
      [Clean (requestPath r), indexName (Clean (requestPath r))])"
  using assms
  by (simp add: ServeHTTP_serveFile serveFile_def serveFile_index_def requestPath_nonempty
        indexName_def Let_def split: sum.splits)

lemma ServeHTTP_listing:
  assumes "\<not> HasSuffix (requestPath r) indexPage"
    and "root (Clean (requestPath r)) = Inr f" and "Stat f = Inr d"
    and "IsDir d" and "last (requestPath r) = CHR ''/''"
    and "noIndex root (Clean (requestPath r))"
  shows "ServeHTTP lib root w r =
     (if checkIfModifiedSince lib r (ModTime d) = condFalse then Written (writeNotModified w)
      else Written (dirList (setLastModified lib w (ModTime d)) (r\<lparr>URL_Path := requestPath r\<rparr>) f),
      [Clean (requestPath r), indexName (Clean (requestPath r))])"
proof -
  have "ServeHTTP lib root w r =
     (serveFile_entry lib w (r\<lparr>URL_Path := requestPath r\<rparr>) d f,
      [Clean (requestPath r), indexName (Clean (requestPath r))])"
    using assms(6) ServeHTTP_dir_slash [of r root f d lib w, OF assms(1-5)]
    by (auto simp: noIndex_def split: sum.splits)
  then show ?thesis using assms(4) by (simp add: serveFile_entry_def)
qed

lemma ServeHTTP_listing_body:
  assumes "last (requestPath r) = CHR ''/''"
    and "root (Clean (requestPath r)) = Inr f" and "Stat f = Inr d" and "IsDir d"
    and "noIndex root (Clean (requestPath r))"
    and "checkIfModifiedSince lib r (ModTime d) \<noteq> condFalse"
    and "Readdir f = Inr dirs"
  shows "ServeHTTP lib root (fresh h) r =
     (Written
        \<lparr>w_header =
           (if isZeroTime (ModTime d) then h
            else h(''Last-Modified'' \<mapsto> [Format_TimeFormat lib (ModTime d)]))
           (''Content-Type'' \<mapsto> [''text/html; charset=utf-8'']),
         w_status = Some 200,
         w_body = ''<pre>'' @ newline
           @ concat (map anchor (sort_Slice (\<lambda>a b. Name a < Name b) dirs))
           @ ''</pre>'' @ newline\<rparr>,
      [Clean (requestPath r), indexName (Clean (requestPath r))])"
proof -
  have n: "\<not> HasSuffix (requestPath r) indexPage"
    using assms(1) by (simp add: slash_not_index requestPath_nonempty)
  show ?thesis
    using ServeHTTP_listing [of r root f d lib "fresh h", OF n assms(2-4) assms(1) assms(5)]
      assms(6,7)
    by (simp add: setLastModified_fresh dirList_unwritten)
qed

lemma isRedirect_entry [simp]: "\<not> isRedirect (serveFile_entry lib (fresh h) r d f)"
  by (simp add: serveFile_entry_def writeNotModified_fresh setLastModified_fresh
        dirList_unwritten StatusMovedPermanently_def split: sum.splits)

lemma opened_names:
  "set (snd (ServeHTTP lib root w r))
     \<subseteq> {Clean (requestPath r), indexName (Clean (requestPath r))}"
  by (auto simp: ServeHTTP_serveFile serveFile_def serveFile_index_def indexName_def Let_def
      split: sum.splits if_splits)

subsection \<open>The last element of a path\<close>



subsection \<open>The insertion sort\<close>

lemma mset_insert_left [simp]: "mset (insert_left lt x ys) = add_mset x (mset ys)"
  by (induction ys) simp_all

lemma set_insert_left [simp]: "set (insert_left lt x ys) = insert x (set ys)"
  by (induction ys) auto

lemma insert_left_descending:
  fixes key :: "'a \<Rightarrow> 'b::linorder"
  assumes "sorted_wrt (\<lambda>a b. key b \<le> key a) ys"
  shows "sorted_wrt (\<lambda>a b. key b \<le> key a) (insert_left (\<lambda>a b. key a < key b) x ys)"
  using assms by (induction ys) (auto simp: less_imp_le not_less)

lemma foldl_insert_left:
  fixes key :: "'a \<Rightarrow> 'b::linorder"
  assumes "sorted_wrt (\<lambda>a b. key b \<le> key a) acc"
  shows "sorted_wrt (\<lambda>a b. key b \<le> key a)
           (foldl (\<lambda>acc x. insert_left (\<lambda>a b. key a < key b) x acc) acc xs)
         \<and> mset (foldl (\<lambda>acc x. insert_left (\<lambda>a b. key a < key b) x acc) acc xs)
             = mset acc + mset xs"
  using assms by (induction xs arbitrary: acc) (simp_all add: insert_left_descending)

lemma sort_Slice_sorted:
  fixes key :: "'a \<Rightarrow> 'b::linorder"
  shows "sorted (map key (sort_Slice (\<lambda>a b. key a < key b) xs))"
proof -
  have "sorted_wrt (\<lambda>a b. key b \<le> key a)
          (foldl (\<lambda>acc x. insert_left (\<lambda>a b. key a < key b) x acc) [] xs)"
    using foldl_insert_left [of key "[]" xs] by simp
  then show ?thesis
    by (simp add: sort_Slice_def sorted_map sorted_wrt_rev)
qed

lemma sort_Slice_mset:
  fixes key :: "'a \<Rightarrow> 'b::linorder"
  shows "mset (sort_Slice (\<lambda>a b. key a < key b) xs) = mset xs"
  using foldl_insert_left [of key "[]" xs] by (simp add: sort_Slice_def)

subsection \<open>The replacer and the escaping of a path\<close>

lemma Replace_htmlReplacer:
  "Replace htmlReplacer s =
     concat (map (\<lambda>c. if c = CHR ''&'' then ''&amp;'' else if c = CHR ''<'' then ''&lt;''
                       else if c = CHR ''>'' then ''&gt;'' else if c = CHR 0x22 then ''&#34;''
                       else if c = CHR 0x27 then ''&#39;'' else [c]) s)"
proof -
  have "(case map_of htmlReplacer c of Some new \<Rightarrow> new | None \<Rightarrow> [c]) =
      (if c = CHR ''&'' then ''&amp;'' else if c = CHR ''<'' then ''&lt;''
       else if c = CHR ''>'' then ''&gt;'' else if c = CHR 0x22 then ''&#34;''
       else if c = CHR 0x27 then ''&#39;'' else [c])" for c
    by (simp add: htmlReplacer_def dquote_def squote_def)
  then show ?thesis by (simp add: Replace_def)
qed

lemma shouldEscape_kept:
  "shouldEscape c = (\<not> (alnum c \<or> c \<in> set ''-_.~$&+,/:;=@''))"
  by (auto simp: shouldEscape_def)

subsection \<open>Cleaning a rooted path\<close>

text \<open>
  The output buffer of \<^verbatim>\<open>path.Clean\<close> on a rooted path is, at every turn of the
  loop, the slash-joined list of the segments kept so far; a path of that form is cleaned
  to itself.
\<close>

lemma backtrack_to:
  assumes "m \<le> w" and "\<And>i. m < i \<Longrightarrow> i \<le> w \<Longrightarrow> buf ! i \<noteq> CHR ''/''"
    and "dotdot \<le> m" and "m = dotdot \<or> buf ! m = CHR ''/''"
  shows "backtrack buf dotdot w = m"
  using assms
proof (induction "w - m" arbitrary: w)
  case 0
  then have "w = m" by simp
  then show ?case using 0 by (subst backtrack.simps) auto
next
  case (Suc k)
  then have w: "m < w" "dotdot < w" "buf ! w \<noteq> CHR ''/''" by auto
  have "backtrack buf dotdot (w - 1) = m"
    using Suc by (intro Suc.hyps(1)) auto
  then show ?case using w by (subst backtrack.simps) simp
qed

lemma joinAbs_Nil [simp]: "joinAbs [] = ''/''"
  by (simp add: joinAbs_def)

lemma joinAbs_snoc:
  "joinAbs (segs @ [s]) = (if segs = [] then [] else joinAbs segs) @ CHR ''/'' # s"
  by (simp add: joinAbs_def)

lemma joinAbs_nonempty [simp]: "joinAbs segs \<noteq> []"
  by (cases segs) (simp_all add: joinAbs_def)

lemma joinAbs_hd [simp]: "hd (joinAbs segs) = CHR ''/''"
  by (cases segs) (simp_all add: joinAbs_def)

lemma joinAbs_length_one:
  "list_all goodSegment segs \<Longrightarrow> (length (joinAbs segs) = 1) = (segs = [])"
  by (cases segs) (auto simp: joinAbs_def goodSegment_def)

lemma joinAbs_length_gt_one:
  "list_all goodSegment segs \<Longrightarrow> (1 < length (joinAbs segs)) = (segs \<noteq> [])"
  by (cases segs) (auto simp: joinAbs_def goodSegment_def)

lemma backtrack_joinAbs:
  assumes "list_all goodSegment (segs @ [s])"
  shows "take (backtrack (joinAbs (segs @ [s])) 1 (length (joinAbs (segs @ [s])) - 1))
           (joinAbs (segs @ [s])) = joinAbs segs"
proof (cases "segs = []")
  case True
  have s: "CHR ''/'' \<notin> set s" "s \<noteq> []" using assms by (auto simp: goodSegment_def)
  have "backtrack (CHR ''/'' # s) 1 (length s) = 1"
  proof (rule backtrack_to)
    show "1 \<le> length s" using s by (cases s) auto
    show "(CHR ''/'' # s) ! i \<noteq> CHR ''/''" if "1 < i" "i \<le> length s" for i
      using that s by (cases i) (auto simp: in_set_conv_nth)
  qed auto
  then show ?thesis using True by (simp add: joinAbs_def)
next
  case False
  let ?pre = "joinAbs segs"
  have s: "CHR ''/'' \<notin> set s" using assms by (auto simp: goodSegment_def)
  have pre: "1 < length ?pre"
    using assms False joinAbs_length_gt_one [of segs] by simp
  have eq: "joinAbs (segs @ [s]) = ?pre @ CHR ''/'' # s"
    using False by (simp add: joinAbs_snoc)
  have "backtrack (?pre @ CHR ''/'' # s) 1 (length ?pre + length s) = length ?pre"
  proof (rule backtrack_to)
    show "(?pre @ CHR ''/'' # s) ! i \<noteq> CHR ''/''"
      if "length ?pre < i" "i \<le> length ?pre + length s" for i
    proof -
      define j where "j = i - length ?pre - 1"
      have j: "i = length ?pre + Suc j" "j < length s"
        using that by (simp_all add: j_def)
      have "(?pre @ CHR ''/'' # s) ! i = s ! j" unfolding j(1) by (simp add: nth_append)
      then show ?thesis using s j by (auto simp: in_set_conv_nth)
    qed
    show "1 \<le> length ?pre" using pre by simp
    show "length ?pre = 1 \<or> (?pre @ CHR ''/'' # s) ! length ?pre = CHR ''/''" by simp
  qed simp
  then show ?thesis by (simp add: eq)
qed

lemma Clean_loop_Nil [simp]: "Clean_loop rooted [] out dotdot = out"
  by (simp add: Clean_loop.simps)

lemma Clean_loop_slash [simp]:
  "Clean_loop rooted (CHR ''/'' # t) out dotdot = Clean_loop rooted t out dotdot"
  by (simp add: Clean_loop.simps)

lemma Clean_loop_dot:
  "t = [] \<or> hd t = CHR ''/'' \<Longrightarrow>
   Clean_loop rooted (CHR ''.'' # t) out dotdot = Clean_loop rooted t out dotdot"
  by (subst Clean_loop.simps) simp

lemma Clean_loop_dotdot:
  assumes "t \<noteq> []" and "hd t = CHR ''.''" and "tl t = [] \<or> hd (tl t) = CHR ''/''"
  shows "Clean_loop True (CHR ''.'' # t) out 1 =
     Clean_loop True (tl t)
       (if 1 < length out then take (backtrack out 1 (length out - 1)) out else out) 1"
  using assms by (subst Clean_loop.simps) simp

lemma Clean_loop_element:
  assumes "c \<noteq> CHR ''/''" and "\<not> (c = CHR ''.'' \<and> (t = [] \<or> hd t = CHR ''/''))"
    and "\<not> (c = CHR ''.'' \<and> hd t = CHR ''.'' \<and> (tl t = [] \<or> hd (tl t) = CHR ''/''))"
  shows "Clean_loop True (c # t) out 1 =
     Clean_loop True (dropWhile notSlash t)
       ((if length out \<noteq> 1 then out @ ''/'' else out) @ c # takeWhile notSlash t) 1"
  using assms by (subst Clean_loop.simps) (auto simp: Let_def)

lemma element_good:
  assumes "c \<noteq> CHR ''/''" and "\<not> (c = CHR ''.'' \<and> (t = [] \<or> hd t = CHR ''/''))"
    and "\<not> (c = CHR ''.'' \<and> hd t = CHR ''.'' \<and> (tl t = [] \<or> hd (tl t) = CHR ''/''))"
  shows "goodSegment (c # takeWhile notSlash t)"
proof -
  have noslash: "CHR ''/'' \<notin> set (takeWhile notSlash t)"
    using set_takeWhileD [of "CHR ''/''" notSlash t] by (auto simp: notSlash_def)
  have dot: "c # takeWhile notSlash t \<noteq> ''.''"
  proof
    assume "c # takeWhile notSlash t = ''.''"
    then have "c = CHR ''.''" "takeWhile notSlash t = []" by simp_all
    then have "c = CHR ''.'' \<and> (t = [] \<or> hd t = CHR ''/'')"
      by (cases t) (auto simp: notSlash_def split: if_splits)
    then show False using assms(2) by simp
  qed
  have dotdot: "c # takeWhile notSlash t \<noteq> ''..''"
  proof
    assume a: "c # takeWhile notSlash t = ''..''"
    then have c: "c = CHR ''.''" and tw: "takeWhile notSlash t = ''.''" by simp_all
    from tw obtain t2 where t: "t = CHR ''.'' # t2" and t2: "takeWhile notSlash t2 = []"
      by (cases t) (auto split: if_splits)
    from t2 have "t2 = [] \<or> hd t2 = CHR ''/''"
      by (cases t2) (auto simp: notSlash_def split: if_splits)
    then show False using assms(3) c t by simp
  qed
  show ?thesis using assms(1) noslash dot dotdot by (simp add: goodSegment_def)
qed

lemma joinAbs_append_element:
  assumes "list_all goodSegment segs"
  shows "(if length (joinAbs segs) \<noteq> 1 then joinAbs segs @ ''/'' else joinAbs segs) @ s
         = joinAbs (segs @ [s])"
  using assms joinAbs_length_one [of segs] by (auto simp: joinAbs_snoc)

lemma Clean_loop_invariant:
  assumes "list_all goodSegment segs"
  shows "\<exists>segs'. Clean_loop True r (joinAbs segs) 1 = joinAbs segs' \<and> list_all goodSegment segs'"
  using assms
proof (induction "length r" arbitrary: r segs rule: less_induct)
  case less
  show ?case
  proof (cases r)
    case Nil
    then show ?thesis using less.prems by auto
  next
    case (Cons c t)
    consider (slash) "c = CHR ''/''"
      | (dot) "c = CHR ''.''" "t = [] \<or> hd t = CHR ''/''"
      | (dotdot) "c = CHR ''.''" "t \<noteq> []" "hd t = CHR ''.''" "tl t = [] \<or> hd (tl t) = CHR ''/''"
      | (element) "c \<noteq> CHR ''/''" "\<not> (c = CHR ''.'' \<and> (t = [] \<or> hd t = CHR ''/''))"
          "\<not> (c = CHR ''.'' \<and> hd t = CHR ''.'' \<and> (tl t = [] \<or> hd (tl t) = CHR ''/''))"
      by blast
    then show ?thesis
    proof cases
      case slash
      then show ?thesis using less.hyps [of t segs] less.prems Cons by simp
    next
      case dot
      then show ?thesis
        using less.hyps [of t segs] less.prems Cons by (simp add: Clean_loop_dot)
    next
      case dotdot
      have len: "length (tl t) < length r" using Cons dotdot(2) by (cases t) auto
      show ?thesis
      proof (cases "segs = []")
        case True
        have "Clean_loop True r (joinAbs segs) 1 = Clean_loop True (tl t) (joinAbs segs) 1"
          unfolding Cons dotdot(1) Clean_loop_dotdot [OF dotdot(2-4)] using True by simp
        then show ?thesis using less.hyps [OF len less.prems] by simp
      next
        case False
        then obtain init s where segs: "segs = init @ [s]"
          by (metis append_butlast_last_id)
        have init: "list_all goodSegment init" using less.prems segs by simp
        have gt: "1 < length (joinAbs segs)"
          using joinAbs_length_gt_one [OF less.prems] False by simp
        have bt: "take (backtrack (joinAbs segs) 1 (length (joinAbs segs) - 1)) (joinAbs segs)
            = joinAbs init"
          using backtrack_joinAbs [of init s] less.prems unfolding segs by blast
        have "Clean_loop True r (joinAbs segs) 1 =
            Clean_loop True (tl t)
              (take (backtrack (joinAbs segs) 1 (length (joinAbs segs) - 1)) (joinAbs segs)) 1"
          unfolding Cons dotdot(1) Clean_loop_dotdot [OF dotdot(2-4)] using gt by simp
        then have "Clean_loop True r (joinAbs segs) 1 = Clean_loop True (tl t) (joinAbs init) 1"
          unfolding bt .
        then show ?thesis using less.hyps [OF len init] by simp
      qed
    next
      case element
      let ?s = "c # takeWhile notSlash t"
      have good: "list_all goodSegment (segs @ [?s])"
        using less.prems element_good [OF element] by simp
      have len: "length (dropWhile notSlash t) < length r"
        using Cons length_dropWhile_le [of notSlash t] by simp
      have "Clean_loop True r (joinAbs segs) 1 =
          Clean_loop True (dropWhile notSlash t) (joinAbs (segs @ [?s])) 1"
        unfolding Cons Clean_loop_element [OF element]
        using joinAbs_append_element [OF less.prems, of ?s] by simp
      then show ?thesis using less.hyps [OF len good] by simp
    qed
  qed
qed

lemma Clean_rooted:
  assumes "p \<noteq> []" and "hd p = CHR ''/''"
  shows "\<exists>segs. Clean p = joinAbs segs \<and> list_all goodSegment segs"
proof -
  obtain segs where segs: "Clean_loop True (tl p) (joinAbs []) 1 = joinAbs segs"
      "list_all goodSegment segs"
    using Clean_loop_invariant [of "[]" "tl p"] by auto
  then have "Clean p = joinAbs segs"
    using assms by (simp add: Clean_def Let_def)
  then show ?thesis using segs(2) by blast
qed

lemma takeWhile_segment:
  assumes "CHR ''/'' \<notin> set s" and "rest = [] \<or> hd rest = CHR ''/''"
  shows "takeWhile notSlash (s @ rest) = s" and "dropWhile notSlash (s @ rest) = rest"
proof -
  have all: "\<forall>x\<in>set s. notSlash x" using assms(1) by (auto simp: notSlash_def)
  have rest: "takeWhile notSlash rest = []" "dropWhile notSlash rest = rest"
    using assms(2) by (cases rest; simp add: notSlash_def)+
  show "takeWhile notSlash (s @ rest) = s" using all rest by (simp add: takeWhile_append2)
  show "dropWhile notSlash (s @ rest) = rest" using all rest by (simp add: dropWhile_append2)
qed

lemma Clean_loop_segment:
  assumes "goodSegment s" and "rest = [] \<or> hd rest = CHR ''/''"
  shows "Clean_loop True (s @ rest) out 1 =
     Clean_loop True rest ((if length out \<noteq> 1 then out @ ''/'' else out) @ s) 1"
proof -
  obtain c cs where s: "s = c # cs" using assms(1) by (cases s) (auto simp: goodSegment_def)
  have c: "c \<noteq> CHR ''/''" and cs: "CHR ''/'' \<notin> set cs"
    using assms(1) s by (auto simp: goodSegment_def)
  have hd_cs: "hd (cs @ rest) \<noteq> CHR ''/''" if "cs \<noteq> []"
    using that cs by (cases cs) auto
  have 1: "\<not> (c = CHR ''.'' \<and> (cs @ rest = [] \<or> hd (cs @ rest) = CHR ''/''))"
  proof (cases "cs = []")
    case True
    then show ?thesis using assms(1) s by (simp add: goodSegment_def)
  next
    case False
    then show ?thesis using hd_cs by simp
  qed
  have 2: "\<not> (c = CHR ''.'' \<and> hd (cs @ rest) = CHR ''.''
            \<and> (tl (cs @ rest) = [] \<or> hd (tl (cs @ rest)) = CHR ''/''))"
  proof (cases cs)
    case Nil
    then show ?thesis using assms(1) s by (simp add: goodSegment_def)
  next
    case (Cons c2 cs2)
    show ?thesis
    proof (cases cs2)
      case Nil
      then show ?thesis using assms(1) s Cons by (auto simp: goodSegment_def)
    next
      case (Cons c3 cs3)
      then show ?thesis using cs \<open>cs = c2 # cs2\<close> by auto
    qed
  qed
  show ?thesis
    unfolding s append_Cons Clean_loop_element [OF c 1 2]
    using takeWhile_segment [OF cs assms(2)] by simp
qed

lemma Clean_loop_segments:
  assumes "list_all goodSegment segs" and "list_all goodSegment (s # rest)"
  shows "Clean_loop True (s @ concat (map (\<lambda>x. CHR ''/'' # x) rest)) (joinAbs segs) 1
         = joinAbs (segs @ s # rest)"
  using assms
proof (induction rest arbitrary: s segs)
  case Nil
  then show ?case
    using Clean_loop_segment [of s "[]" "joinAbs segs"] joinAbs_append_element [of segs s]
    by simp
next
  case (Cons s2 rest)
  have "Clean_loop True (s @ concat (map (\<lambda>x. CHR ''/'' # x) (s2 # rest))) (joinAbs segs) 1
      = Clean_loop True (CHR ''/'' # s2 @ concat (map (\<lambda>x. CHR ''/'' # x) rest))
          (joinAbs (segs @ [s])) 1"
    using Clean_loop_segment [of s "concat (map (\<lambda>x. CHR ''/'' # x) (s2 # rest))" "joinAbs segs"]
      joinAbs_append_element [of segs s] Cons.prems
    by simp
  also have "\<dots> = joinAbs ((segs @ [s]) @ s2 # rest)"
    using Cons.IH [of "segs @ [s]" s2] Cons.prems by simp
  finally show ?case by simp
qed

lemma Clean_joinAbs:
  assumes "list_all goodSegment segs"
  shows "Clean (joinAbs segs) = joinAbs segs"
proof (cases segs)
  case Nil
  then show ?thesis by (simp add: Clean_def)
next
  case (Cons s rest)
  have "Clean_loop True (s @ concat (map (\<lambda>x. CHR ''/'' # x) rest)) (joinAbs []) 1
      = joinAbs ([] @ s # rest)"
    using assms Cons by (intro Clean_loop_segments) simp_all
  then show ?thesis using Cons by (simp add: Clean_def joinAbs_def)
qed

lemma splitSlash_segment:
  "CHR ''/'' \<notin> set s \<Longrightarrow> splitSlash (s @ CHR ''/'' # rest) = s # splitSlash rest"
  by (induction s) auto

lemma splitSlash_no_slash: "CHR ''/'' \<notin> set s \<Longrightarrow> splitSlash s = [s]"
  by (induction s) auto

lemma splitSlash_segments:
  "list_all goodSegment (s # rest) \<Longrightarrow>
   splitSlash (s @ concat (map (\<lambda>x. CHR ''/'' # x) rest)) = s # rest"
proof (induction rest arbitrary: s)
  case Nil
  then show ?case by (simp add: splitSlash_no_slash goodSegment_def)
next
  case (Cons s2 rest)
  then show ?case by (simp add: splitSlash_segment goodSegment_def)
qed

lemma cleanedAbs_joinAbs:
  assumes "list_all goodSegment segs"
  shows "cleanedAbs (joinAbs segs)"
proof (cases segs)
  case Nil
  then show ?thesis by (simp add: cleanedAbs_def)
next
  case (Cons s rest)
  have "splitSlash (joinAbs segs) = [] # s # rest"
    using splitSlash_segments [of s rest] assms Cons by (simp add: joinAbs_def)
  moreover have "list_all (\<lambda>s. s \<noteq> [] \<and> s \<noteq> ''.'' \<and> s \<noteq> ''..'') segs"
    using assms by (induction segs) (auto simp: goodSegment_def)
  ultimately show ?thesis using Cons by (simp add: cleanedAbs_def)
qed

lemma indexName_joinAbs:
  assumes "list_all goodSegment segs"
  shows "indexName (joinAbs segs) = joinAbs (segs @ [''index.html''])"
proof (cases "segs = []")
  case True
  then show ?thesis
    by (simp add: indexName_def TrimSuffix_def HasSuffix_def indexPage_def joinAbs_def)
next
  case False
  then obtain init s where segs: "segs = init @ [s]" by (metis append_butlast_last_id)
  then have s: "s \<noteq> []" "CHR ''/'' \<notin> set s" using assms by (auto simp: goodSegment_def)
  have "last s \<in> set s" using s(1) by (rule last_in_set)
  then have "last s \<noteq> CHR ''/''" using s(2) by metis
  then have "last (joinAbs segs) \<noteq> CHR ''/''" using s(1) by (simp add: segs joinAbs_snoc)
  then have "\<not> HasSuffix (joinAbs segs) ''/''"
    by (auto simp: HasSuffix_def dest!: arg_cong [where f = last])
  then show ?thesis using False
    by (simp add: indexName_def TrimSuffix_def indexPage_def joinAbs_def)
qed

lemma good_index: "goodSegment ''index.html''"
  by (simp add: goodSegment_def)

subsection \<open>The example file system\<close>

lemma Clean_examples:
  "Clean ''/docs/'' = ''/docs''" "Clean ''/docs'' = ''/docs''" "Clean ''/docs/sub'' = ''/docs/sub''"
  "Clean ''/broken/'' = ''/broken''" "Clean ''/notes/'' = ''/notes''" "Clean ''/notes'' = ''/notes''"
  "Clean ''/secret'' = ''/secret''" "Clean ''/odd'' = ''/odd''" "Clean ''/gone'' = ''/gone''"
  "Clean ''/docs/../docs/./sub//'' = ''/docs/sub''" "Clean ''/../../etc/passwd'' = ''/etc/passwd''"
  by code_simp+

lemma Base_examples:
  "Base ''/docs'' = ''docs''" "Base ''/docs/sub'' = ''sub''" "Base ''/notes/'' = ''notes''"
  by (simp_all add: Base_def notSlash_def)

lemma HasSuffix_examples:
  "\<not> HasSuffix ''/docs/'' indexPage" "\<not> HasSuffix ''/docs'' indexPage"
  "\<not> HasSuffix ''/docs/sub'' indexPage" "\<not> HasSuffix ''/broken/'' indexPage"
  "\<not> HasSuffix ''/notes/'' indexPage" "\<not> HasSuffix ''/notes'' indexPage"
  "\<not> HasSuffix ''/secret'' indexPage" "\<not> HasSuffix ''/odd'' indexPage"
  "\<not> HasSuffix ''/gone'' indexPage" "HasSuffix ''/notes/index.html'' indexPage"
  by (simp_all add: HasSuffix_def indexPage_def)

lemma requestPath_example [simp]:
  "requestPath (exampleRequest m (CHR ''/'' # p) q h) = CHR ''/'' # p"
  by (simp add: requestPath_def exampleRequest_def HasPrefix_def)

lemma indexName_examples:
  "indexName ''/docs'' = ''/docs/index.html''" "indexName ''/broken'' = ''/broken/index.html''"
  "indexName ''/'' = ''/index.html''"
  by (simp_all add: indexName_def TrimSuffix_def HasSuffix_def indexPage_def)

lemma noIndex_examples:
  "noIndex exampleFS ''/docs''" "noIndex exampleFS ''/broken''"
  by (simp_all add: noIndex_def indexName_examples exampleFS_def)

lemma open_example:
  "exampleFS ''/docs'' = Inr (exampleDir ''docs'' exampleModTime docsChildren)"
  "exampleFS ''/docs/sub'' = Inr (exampleDir ''sub'' exampleModTime [])"
  "exampleFS ''/notes'' = Inr (exampleRegular ''notes'' exampleModTime)"
  by (simp_all add: exampleFS_def)

lemma Stat_example [simp]:
  "Stat (exampleDir name t children) = Inr (exampleInfo name True t)"
  "Stat (exampleRegular name t) = Inr (exampleInfo name False t)"
  "Readdir (exampleDir name t children) = Inr children"
  by (simp_all add: exampleDir_def exampleRegular_def)

lemma exampleInfo_sel [simp]:
  "Name (exampleInfo name isdir t) = name" "IsDir (exampleInfo name isdir t) = isdir"
  "ModTime (exampleInfo name isdir t) = t"
  by (simp_all add: exampleInfo_def)

lemma querySuffix_example [simp]:
  "querySuffix (exampleRequest m p [] h) = []"
  "querySuffix (exampleRequest m p (c # q) h) = CHR ''?'' # c # q"
  by (simp_all add: querySuffix_def exampleRequest_def)

lemma Format_example:
  "Format_TimeFormat exampleLib exampleModTime = exampleDate"
  by (simp add: exampleLib_def exampleModTime_def Truncate_def Second_def time_Unix_def)

lemma isZeroTime_example: "\<not> isZeroTime exampleModTime"
  by (simp add: isZeroTime_def IsZero_def Equal_def unixEpochTime_def exampleModTime_def
        time_Unix_def Second_def)

lemma checkIfModifiedSince_no_header:
  "checkIfModifiedSince lib (exampleRequest m p q Map.empty) t = condNone"
  by (simp add: checkIfModifiedSince_def exampleRequest_def Get_def)

lemma followRedirect_examples:
  "followRedirect (exampleRequest ''GET'' ''/notes/index.html'' [] Map.empty) ''./''
     = exampleRequest ''GET'' ''/notes/'' [] Map.empty"
  "followRedirect (exampleRequest ''GET'' ''/notes/'' [] Map.empty) ''../notes''
     = exampleRequest ''GET'' ''/notes'' [] Map.empty"
  by (simp_all add: followRedirect_def exampleRequest_def resolvePath_def notSlash_def
        resolveStep_def TrimPrefix_def HasPrefix_def)

lemma broken_listing:
  "ServeHTTP exampleLib exampleFS (fresh Map.empty) (exampleRequest ''GET'' ''/broken/'' [] Map.empty) =
     (Written
        \<lparr>w_header = [''Last-Modified'' \<mapsto> [exampleDate],
                      ''Content-Type'' \<mapsto> [''text/plain; charset=utf-8''],
                      ''X-Content-Type-Options'' \<mapsto> [''nosniff'']],
         w_status = Some 500, w_body = ''Error reading directory'' @ [CHR 0x0A]\<rparr>,
      [''/broken'', ''/broken/index.html''])"
proof -
  let ?f = "\<lparr>Stat = Inr (exampleInfo ''broken'' True exampleModTime),
             Readdir = Inl (OSError Other ''readdirent /srv/broken: input/output error'')\<rparr>"
  let ?r = "exampleRequest ''GET'' ''/broken/'' [] Map.empty"
  have "ServeHTTP exampleLib exampleFS (fresh Map.empty) ?r =
     (if checkIfModifiedSince exampleLib ?r (ModTime (exampleInfo ''broken'' True exampleModTime)) = condFalse
      then Written (writeNotModified (fresh Map.empty))
      else Written (dirList (setLastModified exampleLib (fresh Map.empty)
                      (ModTime (exampleInfo ''broken'' True exampleModTime)))
                    (?r\<lparr>URL_Path := requestPath ?r\<rparr>) ?f),
      [Clean (requestPath ?r), indexName (Clean (requestPath ?r))])"
    by (rule ServeHTTP_listing)
       (simp_all add: HasSuffix_examples Clean_examples noIndex_examples exampleFS_def
          exampleInfo_def)
  then show ?thesis
    by (simp add: checkIfModifiedSince_no_header setLastModified_fresh dirList_unwritten
          exampleInfo_def isZeroTime_example Format_example Clean_examples indexName_examples
          newline_def)
qed

lemma notes_index_redirect:
  "ServeHTTP exampleLib exampleFS (fresh Map.empty)
      (exampleRequest ''GET'' ''/notes/index.html'' [] Map.empty) =
     (Written \<lparr>w_header = [''Location'' \<mapsto> [''./'']], w_status = Some 301, w_body = []\<rparr>, [])"
  using ServeHTTP_index_suffix [of "exampleRequest ''GET'' ''/notes/index.html'' [] Map.empty"
      exampleLib exampleFS "fresh Map.empty"]
  by (simp add: HasSuffix_examples localRedirect_fresh)

lemma notes_slash_redirect:
  "ServeHTTP exampleLib exampleFS (fresh Map.empty)
      (exampleRequest ''GET'' ''/notes/'' [] Map.empty) =
     (Written \<lparr>w_header = [''Location'' \<mapsto> [''../notes'']], w_status = Some 301, w_body = []\<rparr>,
      [''/notes''])"
  using ServeHTTP_file_slash [of "exampleRequest ''GET'' ''/notes/'' [] Map.empty" exampleFS
      "exampleRegular ''notes'' exampleModTime" "exampleInfo ''notes'' False exampleModTime"
      exampleLib "fresh Map.empty"]
  by (simp add: Clean_examples Base_examples open_example HasSuffix_examples localRedirect_fresh)

lemma opened_examples:
  "snd (ServeHTTP exampleLib exampleFS (fresh Map.empty)
      (exampleRequest ''GET'' ''/../../etc/passwd'' [] Map.empty)) = [''/etc/passwd'']"
  "snd (ServeHTTP exampleLib exampleFS (fresh Map.empty)
      (exampleRequest ''GET'' ''/docs/../docs/./sub//'' [] Map.empty))
     = [''/docs/sub'', ''/docs/sub/index.html'']"
proof -
  have "exampleFS ''/etc/passwd''
      = Inl (OSError NotExist ''open /srv/etc/passwd: no such file or directory'')"
    by (simp add: exampleFS_def)
  then show "snd (ServeHTTP exampleLib exampleFS (fresh Map.empty)
      (exampleRequest ''GET'' ''/../../etc/passwd'' [] Map.empty)) = [''/etc/passwd'']"
    using ServeHTTP_open_error [of "exampleRequest ''GET'' ''/../../etc/passwd'' [] Map.empty"
        exampleFS _ exampleLib "fresh Map.empty"]
    by (simp add: Clean_examples HasSuffix_def indexPage_def)
  have idx: "indexName ''/docs/sub'' = ''/docs/sub/index.html''"
    by (simp add: indexName_def TrimSuffix_def HasSuffix_def indexPage_def)
  have "noIndex exampleFS ''/docs/sub''"
    by (simp add: noIndex_def idx exampleFS_def)
  then show "snd (ServeHTTP exampleLib exampleFS (fresh Map.empty)
      (exampleRequest ''GET'' ''/docs/../docs/./sub//'' [] Map.empty))
     = [''/docs/sub'', ''/docs/sub/index.html'']"
    using ServeHTTP_listing [of "exampleRequest ''GET'' ''/docs/../docs/./sub//'' [] Map.empty"
        exampleFS "exampleDir ''sub'' exampleModTime []" "exampleInfo ''sub'' True exampleModTime"
        exampleLib "fresh Map.empty"]
    by (simp add: Clean_examples open_example HasSuffix_def indexPage_def idx)
qed

subsection \<open>Resolving a relative location\<close>

lemma splitSlash_nonempty [simp]: "splitSlash s \<noteq> []"
  by (induction s) (auto split: list.splits)








subsection \<open>The example with a directory named like the index page\<close>

lemma exampleRequest_update [simp]:
  "(exampleRequest m p q h)\<lparr>URL_Path := p'\<rparr> = exampleRequest m p' q h"
  "(exampleRequest m p q h)\<lparr>URL_Path := p', URL_RawQuery := q'\<rparr> = exampleRequest m p' q' h"
  "URL_Path (exampleRequest m p q h) = p" "URL_RawQuery (exampleRequest m p q h) = q"
  by (simp_all add: exampleRequest_def)




subsection \<open>The line of a child, written out\<close>

lemma alnum_bytes:
  "alnum c = ((97 \<le> (of_char c :: nat) \<and> (of_char c :: nat) \<le> 122)
              \<or> (65 \<le> (of_char c :: nat) \<and> (of_char c :: nat) \<le> 90)
              \<or> (48 \<le> (of_char c :: nat) \<and> (of_char c :: nat) \<le> 57))"
  by (simp add: alnum_def inRange_def less_eq_char_def)

lemma escape_explicit:
  "escape s = concat (map (\<lambda>c. if (97 \<le> (of_char c :: nat) \<and> (of_char c :: nat) \<le> 122
                      \<or> 65 \<le> (of_char c :: nat) \<and> (of_char c :: nat) \<le> 90
                      \<or> 48 \<le> (of_char c :: nat) \<and> (of_char c :: nat) \<le> 57
                      \<or> c \<in> set ''-_.~$&+,/:;=@'')
                   then [c]
                   else [CHR ''%'', ''0123456789ABCDEF'' ! (of_char c div 16),
                         ''0123456789ABCDEF'' ! (of_char c mod 16)]) s)"
  unfolding escape_def shouldEscape_kept alnum_bytes upperhex_def
  by (rule arg_cong [where f = concat], rule map_cong) auto

lemma anchor_explicit:
  "anchor = (\<lambda>d. let nm = Name d @ (if IsDir d then ''/'' else []);
              enc = (if nm = ''*'' then ''*'' else concat (map (\<lambda>c. if (97 \<le> (of_char c :: nat) \<and> (of_char c :: nat) \<le> 122
                      \<or> 65 \<le> (of_char c :: nat) \<and> (of_char c :: nat) \<le> 90
                      \<or> 48 \<le> (of_char c :: nat) \<and> (of_char c :: nat) \<le> 57
                      \<or> c \<in> set ''-_.~$&+,/:;=@'')
                   then [c]
                   else [CHR ''%'', ''0123456789ABCDEF'' ! (of_char c div 16),
                         ''0123456789ABCDEF'' ! (of_char c mod 16)]) nm));
              href = (if CHR '':'' \<in> set (takeWhile (\<lambda>c. c \<noteq> CHR ''/'') enc) then ''./'' else []) @ enc;
              vis = concat (map (\<lambda>c. if c = CHR ''&'' then ''&amp;'' else if c = CHR ''<'' then ''&lt;''
                   else if c = CHR ''>'' then ''&gt;'' else if c = CHR 0x22 then ''&#34;''
                   else if c = CHR 0x27 then ''&#39;'' else [c]) nm)
          in ''<a href='' @ [CHR 0x22] @ href @ [CHR 0x22] @ ''>'' @ vis @ ''</a>'' @ [CHR 0x0A])"
proof
  fix d
  show "anchor d = (\<lambda>d. let nm = Name d @ (if IsDir d then ''/'' else []);
              enc = (if nm = ''*'' then ''*'' else concat (map (\<lambda>c. if (97 \<le> (of_char c :: nat) \<and> (of_char c :: nat) \<le> 122
                      \<or> 65 \<le> (of_char c :: nat) \<and> (of_char c :: nat) \<le> 90
                      \<or> 48 \<le> (of_char c :: nat) \<and> (of_char c :: nat) \<le> 57
                      \<or> c \<in> set ''-_.~$&+,/:;=@'')
                   then [c]
                   else [CHR ''%'', ''0123456789ABCDEF'' ! (of_char c div 16),
                         ''0123456789ABCDEF'' ! (of_char c mod 16)]) nm));
              href = (if CHR '':'' \<in> set (takeWhile (\<lambda>c. c \<noteq> CHR ''/'') enc) then ''./'' else []) @ enc;
              vis = concat (map (\<lambda>c. if c = CHR ''&'' then ''&amp;'' else if c = CHR ''<'' then ''&lt;''
                   else if c = CHR ''>'' then ''&gt;'' else if c = CHR 0x22 then ''&#34;''
                   else if c = CHR 0x27 then ''&#39;'' else [c]) nm)
          in ''<a href='' @ [CHR 0x22] @ href @ [CHR 0x22] @ ''>'' @ vis @ ''</a>'' @ [CHR 0x0A]) d"
    unfolding anchor_def Replace_htmlReplacer URL_String_def EscapedPath_def escape_explicit
    by (simp add: entryName_def dquote_def newline_def Let_def notSlash_def [abs_def])
qed

subsection \<open>The sorted permutation is unique when the names differ\<close>

text \<open>
  The children of a directory have different names. Then there is one sorted permutation,
  and every sort that keeps the library's promise returns what \<^const>\<open>sort_Slice\<close> returns,
  at every length.
\<close>

lemma sorted_permutation_unique:
  fixes key :: "'a \<Rightarrow> 'b::linorder"
  assumes "distinct (map key xs)" and "mset ys = mset xs" and "sorted (map key ys)"
  shows "ys = sort_Slice (\<lambda>a b. key a < key b) xs"
proof -
  let ?zs = "sort_Slice (\<lambda>a b. key a < key b) xs"
  have zs: "mset ?zs = mset xs" "sorted (map key ?zs)"
    by (rule sort_Slice_mset, rule sort_Slice_sorted)
  have sets: "set ys = set xs" "set ?zs = set xs"
    using assms(2) zs(1) by (metis set_mset_mset)+
  have "mset (map key ys) = mset (map key xs)" "mset (map key ?zs) = mset (map key xs)"
    using assms(2) zs(1) by (metis mset_map)+
  then have d: "distinct (map key ys)" "distinct (map key ?zs)"
    using assms(1) by (metis mset_eq_imp_distinct_iff)+
  have "set (map key ys) = set (map key ?zs)" using sets by simp
  then have keys: "map key ys = map key ?zs"
    using assms(3) zs(2) d by (intro sorted_distinct_set_unique)
  have inj: "inj_on key (set xs)" using assms(1) by (simp add: distinct_map)
  then have "inj_on key (set ys \<union> set ?zs)" using sets by simp
  then show ?thesis using keys by (simp add: inj_on_map_eq_map)
qed

subsection \<open>The listing with exclusion rules\<close>




subsection \<open>More examples\<close>

lemma names_sorted:
  "sort_Slice (\<lambda>a b. Name a < Name b) namesChildren =
     [exampleInfo ''a&<b>.txt'' False exampleModTime,
      exampleInfo [CHR ''i'', CHR ''t'', CHR 0x27, CHR ''s''] False exampleModTime,
      exampleInfo ''what?#.d'' True exampleModTime]"
  by (simp add: sort_Slice_def namesChildren_def)

lemma names_distinct: "distinct (map Name namesChildren)"
  by (simp add: namesChildren_def)

lemma names_root:
  "Clean ''/'' = ''/''" "namesFS ''/'' = Inr (exampleDir ''/'' exampleModTime namesChildren)"
  "noIndex namesFS ''/''"
  by (simp_all add: Clean_def namesFS_def noIndex_def indexName_examples)



section \<open>Properties\<close>

subsection \<open>The precondition evaluator\<close>

text \<open>
  C2. \<^verbatim>\<open>checkIfModifiedSince\<close> reads the method, the \<^verbatim>\<open>If-Modified-Since\<close> header and
  the modification time only. The spec's "satisfied" (content unchanged, the result on
  which \<^verbatim>\<open>serveFile\<close> answers not modified) is \<^const>\<open>condFalse\<close>, its "not-satisfied"
  is \<^const>\<open>condTrue\<close>, its "no-precondition" is \<^const>\<open>condNone\<close>. The result is
  \<^const>\<open>condNone\<close> exactly when the method is neither GET nor HEAD, or the header is
  absent (empty) or unparsable, or the modification time is the zero time or the Unix
  epoch (62135596800 seconds after the zero time); otherwise it is \<^const>\<open>condFalse\<close> when
  the modification time rounded down to the second is at or before the header's time and
  \<^const>\<open>condTrue\<close> when it is after. In particular GET with header time \<open>T\<close> and
  truncated modification time \<open>T\<close> gives \<^const>\<open>condFalse\<close>, one second later
  \<^const>\<open>condTrue\<close>, and POST gives \<^const>\<open>condNone\<close> whatever the times.
\<close>

theorem checkIfModifiedSince_cases:
  "(checkIfModifiedSince lib r modtime = condNone) =
     ((Method r \<noteq> ''GET'' \<and> Method r \<noteq> ''HEAD'')
      \<or> Get (Header r) ''If-Modified-Since'' = []
      \<or> http_ParseTime lib (Get (Header r) ''If-Modified-Since'') = None
      \<or> modtime = 0 \<or> modtime = 62135596800000000000)
   \<and> (checkIfModifiedSince lib r modtime = condFalse) =
     ((Method r = ''GET'' \<or> Method r = ''HEAD'')
      \<and> Get (Header r) ''If-Modified-Since'' \<noteq> []
      \<and> modtime \<noteq> 0 \<and> modtime \<noteq> 62135596800000000000
      \<and> (\<exists>t. http_ParseTime lib (Get (Header r) ''If-Modified-Since'') = Some t
             \<and> modtime - modtime mod 1000000000 \<le> t))
   \<and> (checkIfModifiedSince lib r modtime = condTrue) =
     ((Method r = ''GET'' \<or> Method r = ''HEAD'')
      \<and> Get (Header r) ''If-Modified-Since'' \<noteq> []
      \<and> modtime \<noteq> 0 \<and> modtime \<noteq> 62135596800000000000
      \<and> (\<exists>t. http_ParseTime lib (Get (Header r) ''If-Modified-Since'') = Some t
             \<and> t < modtime - modtime mod 1000000000))
   \<and> (Method r = ''GET'' \<and> Get (Header r) ''If-Modified-Since'' \<noteq> []
        \<and> http_ParseTime lib (Get (Header r) ''If-Modified-Since'') = Some T
        \<and> modtime \<noteq> 0 \<and> modtime \<noteq> 62135596800000000000
        \<and> modtime - modtime mod 1000000000 = T
      \<longrightarrow> checkIfModifiedSince lib r modtime = condFalse)
   \<and> (Method r = ''GET'' \<and> Get (Header r) ''If-Modified-Since'' \<noteq> []
        \<and> http_ParseTime lib (Get (Header r) ''If-Modified-Since'') = Some T
        \<and> modtime \<noteq> 0 \<and> modtime \<noteq> 62135596800000000000
        \<and> modtime - modtime mod 1000000000 = T + 1000000000
      \<longrightarrow> checkIfModifiedSince lib r modtime = condTrue)
   \<and> (Method r = ''POST'' \<longrightarrow> checkIfModifiedSince lib r modtime = condNone)"
  by (auto simp: checkIfModifiedSince_def isZeroTime_def IsZero_def Equal_def Before_def
        Truncate_def Second_def unixEpochTime_def time_Unix_def Let_def
      split: option.splits)

theorem checkIfModifiedSince_cases_witness:
  "checkIfModifiedSince exampleLib
      (exampleRequest ''GET'' ''/docs/'' [] [''If-Modified-Since'' \<mapsto> [exampleDate]])
      (time_Unix 1420070400 999999999) = condFalse
   \<and> checkIfModifiedSince exampleLib
      (exampleRequest ''GET'' ''/docs/'' [] [''If-Modified-Since'' \<mapsto> [exampleDate]])
      (time_Unix 1420070401 0) = condTrue
   \<and> checkIfModifiedSince exampleLib
      (exampleRequest ''POST'' ''/docs/'' [] [''If-Modified-Since'' \<mapsto> [exampleDate]])
      (time_Unix 1420070400 0) = condNone
   \<and> checkIfModifiedSince exampleLib
      (exampleRequest ''HEAD'' ''/docs/'' [] [''If-Modified-Since'' \<mapsto> [exampleDate]])
      (time_Unix 0 0) = condNone"
  using checkIfModifiedSince_cases [of exampleLib
      "exampleRequest ''GET'' ''/docs/'' [] [''If-Modified-Since'' \<mapsto> [exampleDate]]"
      "time_Unix 1420070400 999999999" "time_Unix 1420070400 0"]
    checkIfModifiedSince_cases [of exampleLib
      "exampleRequest ''GET'' ''/docs/'' [] [''If-Modified-Since'' \<mapsto> [exampleDate]]"
      "time_Unix 1420070401 0" "time_Unix 1420070400 0"]
    checkIfModifiedSince_cases [of exampleLib
      "exampleRequest ''POST'' ''/docs/'' [] [''If-Modified-Since'' \<mapsto> [exampleDate]]"
      "time_Unix 1420070400 0"]
    checkIfModifiedSince_cases [of exampleLib
      "exampleRequest ''HEAD'' ''/docs/'' [] [''If-Modified-Since'' \<mapsto> [exampleDate]]"
      "time_Unix 0 0"]
  by (simp add: exampleLib_def exampleRequest_def exampleDate_def Get_def time_Unix_def Second_def)

subsection \<open>The index redirect\<close>

text \<open>
  C5. A request whose URL path ends in \<^verbatim>\<open>/index.html\<close> is answered with status 301 and
  \<^verbatim>\<open>Location: ./\<close>, followed by \<^verbatim>\<open>?\<close> and the query when there is one, and nothing
  else is written. The rule stands first in \<^verbatim>\<open>serveFile\<close>: the answer is the same for every
  file system, every name and either value of the redirect flag, so the rules on the
  trailing slash of directories and files are not reached. Literally, GET
  \<^verbatim>\<open>/a/index.html\<close> yields \<^verbatim>\<open>Location: ./\<close>.
\<close>

theorem index_redirect_first:
  assumes "HasSuffix (URL_Path r) ''/index.html''"
  shows "ServeHTTP lib root (fresh h) r =
           (Written \<lparr>w_header = h(''Location'' \<mapsto> [''./'' @ querySuffix r]),
                     w_status = Some 301, w_body = []\<rparr>, [])
         \<and> serveFile lib (fresh h) r fs name redirect =
           (Written \<lparr>w_header = h(''Location'' \<mapsto> [''./'' @ querySuffix r]),
                     w_status = Some 301, w_body = []\<rparr>, [])"
  using assms ServeHTTP_index_redirect [of r lib root "fresh h"]
  by (simp add: indexPage_def localRedirect_fresh serveFile_def)

theorem index_redirect_first_witness:
  "HasSuffix ''/a/index.html'' ''/index.html''
   \<and> ServeHTTP exampleLib exampleFS (fresh Map.empty)
        (exampleRequest ''GET'' ''/a/index.html'' [] Map.empty) =
       (Written \<lparr>w_header = [''Location'' \<mapsto> [''./'']], w_status = Some 301, w_body = []\<rparr>, [])
   \<and> ServeHTTP exampleLib exampleFS (fresh Map.empty)
        (exampleRequest ''GET'' ''/docs/index.html'' ''x=1'' Map.empty) =
       (Written \<lparr>w_header = [''Location'' \<mapsto> [''./?x=1'']], w_status = Some 301, w_body = []\<rparr>, [])"
  using index_redirect_first [of "exampleRequest ''GET'' ''/a/index.html'' [] Map.empty"
      exampleLib exampleFS Map.empty]
    index_redirect_first [of "exampleRequest ''GET'' ''/docs/index.html'' ''x=1'' Map.empty"
      exampleLib exampleFS Map.empty]
  by (simp add: exampleRequest_def HasSuffix_def querySuffix_def)

text \<open>
  C10. For a request whose URL path ends in \<^verbatim>\<open>/index.html\<close> the 301 redirect to \<^verbatim>\<open>./\<close>
  (with the query, when there is one) is issued before the file system is consulted: the
  response is exactly that redirect, no name is opened, the status is never 404, 403 or
  500, and the response is the one a file system with no entry at all gives, so it does
  not depend on the named file or its ancestors existing.
\<close>

theorem index_redirect_never_error:
  assumes "HasSuffix (URL_Path r) ''/index.html''"
  shows "ServeHTTP lib root (fresh h) r =
           (Written \<lparr>w_header = h(''Location'' \<mapsto> [''./'' @ querySuffix r]),
                     w_status = Some 301, w_body = []\<rparr>, [])
         \<and> location (fst (ServeHTTP lib root (fresh h) r)) = ''./'' @ querySuffix r
         \<and> isRedirect (fst (ServeHTTP lib root (fresh h) r))
         \<and> snd (ServeHTTP lib root (fresh h) r) = []
         \<and> (\<exists>w. fst (ServeHTTP lib root (fresh h) r) = Written w
                \<and> w_status w = Some 301
                \<and> w_status w \<noteq> Some 404 \<and> w_status w \<noteq> Some 403 \<and> w_status w \<noteq> Some 500
                \<and> w_body w = [])
         \<and> ServeHTTP lib root (fresh h) r = ServeHTTP lib missingFS (fresh h) r"
  using assms ServeHTTP_index_redirect [of r lib root "fresh h"]
    ServeHTTP_index_redirect [of r lib missingFS "fresh h"]
  by (simp add: indexPage_def localRedirect_fresh Get_def StatusMovedPermanently_def)

theorem index_redirect_never_error_witness:
  "HasSuffix ''/gone/deeper/index.html'' ''/index.html''
   \<and> exampleFS ''/gone/deeper/index.html''
       = Inl (OSError NotExist ''open /srv/gone/deeper/index.html: no such file or directory'')
   \<and> exampleFS ''/gone/deeper''
       = Inl (OSError NotExist ''open /srv/gone/deeper: no such file or directory'')
   \<and> ServeHTTP exampleLib exampleFS (fresh Map.empty)
        (exampleRequest ''GET'' ''/gone/deeper/index.html'' ''v=2'' Map.empty) =
       (Written \<lparr>w_header = [''Location'' \<mapsto> [''./?v=2'']], w_status = Some 301, w_body = []\<rparr>,
        [])
   \<and> location (fst (ServeHTTP exampleLib exampleFS (fresh Map.empty)
        (exampleRequest ''GET'' ''/gone/deeper/index.html'' ''v=2'' Map.empty))) = ''./?v=2''"
proof -
  have suffix: "HasSuffix ''/gone/deeper/index.html'' ''/index.html''"
    by (simp add: HasSuffix_def)
  have "HasSuffix (URL_Path (exampleRequest ''GET'' ''/gone/deeper/index.html'' ''v=2'' Map.empty))
          ''/index.html''"
    using suffix by (simp add: exampleRequest_def)
  note t = index_redirect_never_error [OF this, of exampleLib exampleFS Map.empty]
  have 1: "ServeHTTP exampleLib exampleFS (fresh Map.empty)
        (exampleRequest ''GET'' ''/gone/deeper/index.html'' ''v=2'' Map.empty) =
       (Written \<lparr>w_header = [''Location'' \<mapsto> [''./?v=2'']], w_status = Some 301, w_body = []\<rparr>,
        [])"
    using t [THEN conjunct1] by simp
  have 2: "location (fst (ServeHTTP exampleLib exampleFS (fresh Map.empty)
        (exampleRequest ''GET'' ''/gone/deeper/index.html'' ''v=2'' Map.empty))) = ''./?v=2''"
    using t [THEN conjunct2, THEN conjunct1] by simp
  show ?thesis using 1 2 suffix by (simp add: exampleFS_def)
qed

subsection \<open>The not-modified response\<close>

text \<open>
  C8. A request for a directory without index page whose conditional check against the
  directory's own modification time is satisfied (\<^const>\<open>condFalse\<close>) is answered with
  status 304 and no body. Of the headers set before the handler ran, \<^verbatim>\<open>Content-Type\<close> and
  \<^verbatim>\<open>Content-Length\<close> are removed, \<^verbatim>\<open>Last-Modified\<close> is removed as well when \<^verbatim>\<open>Etag\<close>
  has a non-empty value (so only when an \<^verbatim>\<open>Etag\<close> header is present), and every other key
  keeps its values.
  The same holds at the last stage of \<^verbatim>\<open>serveFile\<close> for whatever directory reaches it.
\<close>

theorem not_modified_frame:
  assumes "last (requestPath r) = CHR ''/''"
    and "root (Clean (requestPath r)) = Inr f" and "Stat f = Inr d" and "IsDir d"
    and "noIndex root (Clean (requestPath r))"
    and "checkIfModifiedSince lib r (ModTime d) = condFalse"
  shows "ServeHTTP lib root (fresh h) r =
     (Written
        \<lparr>w_header = (\<lambda>k. if k = ''Content-Type'' \<or> k = ''Content-Length''
                              \<or> (k = ''Last-Modified'' \<and> Get h ''Etag'' \<noteq> [])
                           then None else h k),
         w_status = Some 304, w_body = []\<rparr>,
      [Clean (requestPath r), indexName (Clean (requestPath r))])
   \<and> (IsDir d' \<and> checkIfModifiedSince lib r' (ModTime d') = condFalse \<longrightarrow>
        serveFile_entry lib (fresh h) r' d' f' =
          Written
            \<lparr>w_header = (\<lambda>k. if k = ''Content-Type'' \<or> k = ''Content-Length''
                                  \<or> (k = ''Last-Modified'' \<and> Get h ''Etag'' \<noteq> [])
                               then None else h k),
             w_status = Some 304, w_body = []\<rparr>)"
proof -
  have "\<not> HasSuffix (requestPath r) indexPage"
    using assms(1) by (simp add: slash_not_index requestPath_nonempty)
  from ServeHTTP_listing [OF this assms(2-4) assms(1) assms(5), of lib "fresh h"] assms(6)
  show ?thesis by (simp add: writeNotModified_fresh serveFile_entry_def)
qed

theorem not_modified_frame_witness:
  "ServeHTTP exampleLib exampleFS
      (fresh [''Content-Type'' \<mapsto> [''text/css''], ''Content-Length'' \<mapsto> [''12''],
              ''Last-Modified'' \<mapsto> [exampleDate], ''Etag'' \<mapsto> [''v1''],
              ''Cache-Control'' \<mapsto> [''no-cache'']])
      (exampleRequest ''GET'' ''/docs/'' [] [''If-Modified-Since'' \<mapsto> [exampleDate]]) =
     (Written \<lparr>w_header = [''Etag'' \<mapsto> [''v1''], ''Cache-Control'' \<mapsto> [''no-cache'']],
               w_status = Some 304, w_body = []\<rparr>,
      [''/docs'', ''/docs/index.html''])
   \<and> ServeHTTP exampleLib exampleFS
      (fresh [''Content-Type'' \<mapsto> [''text/css''], ''Last-Modified'' \<mapsto> [exampleDate]])
      (exampleRequest ''HEAD'' ''/docs/'' [] [''If-Modified-Since'' \<mapsto> [exampleDate]]) =
     (Written \<lparr>w_header = [''Last-Modified'' \<mapsto> [exampleDate]],
               w_status = Some 304, w_body = []\<rparr>,
      [''/docs'', ''/docs/index.html''])"
proof -
  have cond: "checkIfModifiedSince exampleLib
      (exampleRequest m ''/docs/'' [] [''If-Modified-Since'' \<mapsto> [exampleDate]]) exampleModTime
      = condFalse" if "m = ''GET'' \<or> m = ''HEAD''" for m
    using that
    by (auto simp: checkIfModifiedSince_def exampleRequest_def exampleLib_def Get_def
          isZeroTime_def IsZero_def Equal_def Before_def Truncate_def Second_def
          unixEpochTime_def time_Unix_def exampleModTime_def exampleDate_def)
  have open_docs: "exampleFS ''/docs'' = Inr (exampleDir ''docs'' exampleModTime docsChildren)"
    by (simp add: exampleFS_def)
  have stat: "Stat (exampleDir ''docs'' exampleModTime docsChildren)
      = Inr (exampleInfo ''docs'' True exampleModTime)"
    by (simp add: exampleDir_def)
  have isdir: "IsDir (exampleInfo ''docs'' True exampleModTime)"
    and modtime: "ModTime (exampleInfo ''docs'' True exampleModTime) = exampleModTime"
    by (simp_all add: exampleInfo_def)
  have 1: "ServeHTTP exampleLib exampleFS (fresh h)
        (exampleRequest m ''/docs/'' [] [''If-Modified-Since'' \<mapsto> [exampleDate]]) =
     (Written
        \<lparr>w_header = (\<lambda>k. if k = ''Content-Type'' \<or> k = ''Content-Length''
                              \<or> (k = ''Last-Modified'' \<and> Get h ''Etag'' \<noteq> [])
                           then None else h k),
         w_status = Some 304, w_body = []\<rparr>,
      [''/docs'', ''/docs/index.html''])" if "m = ''GET'' \<or> m = ''HEAD''" for m h
    using not_modified_frame [of "exampleRequest m ''/docs/'' [] [''If-Modified-Since'' \<mapsto> [exampleDate]]"
        exampleFS "exampleDir ''docs'' exampleModTime docsChildren"
        "exampleInfo ''docs'' True exampleModTime" exampleLib h]
      cond [OF that]
    by (simp add: Clean_examples open_docs stat isdir modtime noIndex_examples indexName_examples)
  show ?thesis
    by (auto simp: 1 Get_def fun_eq_iff)
qed

subsection \<open>Error responses\<close>

text \<open>
  C4, as the code has it. A failure of \<^verbatim>\<open>Open\<close> or of \<^verbatim>\<open>Stat\<close> on the requested name is
  answered with \<^verbatim>\<open>Content-Type: text/plain; charset=utf-8\<close>,
  \<^verbatim>\<open>X-Content-Type-Options: nosniff\<close> and one line: status 404 and
  \<^verbatim>\<open>404 page not found\<close> for a missing entry, status 403 and \<^verbatim>\<open>403 Forbidden\<close> for a
  permission failure, status 500 and \<^verbatim>\<open>500 Internal Server Error\<close> otherwise. A failure
  of \<^verbatim>\<open>Readdir\<close> while listing is answered with the same two headers and status 500, and
  its line is \<^verbatim>\<open>Error reading directory\<close>. The text of the error (\<open>msg\<close>) appears in
  no response.
\<close>

theorem error_responses:
  "(\<not> HasSuffix (requestPath r) ''/index.html''
      \<and> (root (Clean (requestPath r)) = Inl (OSError c msg)
          \<or> (\<exists>f. root (Clean (requestPath r)) = Inr f \<and> Stat f = Inl (OSError c msg)))
    \<longrightarrow> ServeHTTP lib root (fresh h) r =
         (Written
            \<lparr>w_header = h(''Content-Type'' \<mapsto> [''text/plain; charset=utf-8''],
                           ''X-Content-Type-Options'' \<mapsto> [''nosniff'']),
             w_status = Some (if c = NotExist then 404 else if c = Permission then 403 else 500),
             w_body = (if c = NotExist then ''404 page not found''
                       else if c = Permission then ''403 Forbidden''
                       else ''500 Internal Server Error'') @ [CHR 0x0A]\<rparr>,
          [Clean (requestPath r)]))
   \<and> (last (requestPath r) = CHR ''/''
      \<and> root (Clean (requestPath r)) = Inr f \<and> Stat f = Inr d \<and> IsDir d
      \<and> noIndex root (Clean (requestPath r))
      \<and> checkIfModifiedSince lib r (ModTime d) \<noteq> condFalse
      \<and> Readdir f = Inl (OSError c msg)
    \<longrightarrow> ServeHTTP lib root (fresh h) r =
         (Written
            \<lparr>w_header =
               (if isZeroTime (ModTime d) then h
                else h(''Last-Modified'' \<mapsto> [Format_TimeFormat lib (ModTime d)]))
               (''Content-Type'' \<mapsto> [''text/plain; charset=utf-8''],
                ''X-Content-Type-Options'' \<mapsto> [''nosniff'']),
             w_status = Some 500,
             w_body = ''Error reading directory'' @ [CHR 0x0A]\<rparr>,
          [Clean (requestPath r), indexName (Clean (requestPath r))]))"
proof (intro conjI impI)
  assume a: "\<not> HasSuffix (requestPath r) ''/index.html''
      \<and> (root (Clean (requestPath r)) = Inl (OSError c msg)
          \<or> (\<exists>f. root (Clean (requestPath r)) = Inr f \<and> Stat f = Inl (OSError c msg)))"
  then have n: "\<not> HasSuffix (requestPath r) indexPage" by (simp add: indexPage_def)
  from a have "ServeHTTP lib root (fresh h) r =
     (Written (Error (fresh h) (fst (toHTTPError (OSError c msg))) (snd (toHTTPError (OSError c msg)))),
      [Clean (requestPath r)])"
    using ServeHTTP_open_error [OF n] ServeHTTP_stat_error [OF n] by blast
  then show "ServeHTTP lib root (fresh h) r =
         (Written
            \<lparr>w_header = h(''Content-Type'' \<mapsto> [''text/plain; charset=utf-8''],
                           ''X-Content-Type-Options'' \<mapsto> [''nosniff'']),
             w_status = Some (if c = NotExist then 404 else if c = Permission then 403 else 500),
             w_body = (if c = NotExist then ''404 page not found''
                       else if c = Permission then ''403 Forbidden''
                       else ''500 Internal Server Error'') @ [CHR 0x0A]\<rparr>,
          [Clean (requestPath r)])"
    by (simp add: toHTTPError_cases Error_fresh newline_def)
next
  assume a: "last (requestPath r) = CHR ''/''
      \<and> root (Clean (requestPath r)) = Inr f \<and> Stat f = Inr d \<and> IsDir d
      \<and> noIndex root (Clean (requestPath r))
      \<and> checkIfModifiedSince lib r (ModTime d) \<noteq> condFalse
      \<and> Readdir f = Inl (OSError c msg)"
  then have n: "\<not> HasSuffix (requestPath r) indexPage"
    by (simp add: slash_not_index requestPath_nonempty)
  from a ServeHTTP_listing [OF n, of root f d lib "fresh h"]
  have "ServeHTTP lib root (fresh h) r =
     (Written (dirList (setLastModified lib (fresh h) (ModTime d)) (r\<lparr>URL_Path := requestPath r\<rparr>) f),
      [Clean (requestPath r), indexName (Clean (requestPath r))])"
    by simp
  then show "ServeHTTP lib root (fresh h) r =
         (Written
            \<lparr>w_header =
               (if isZeroTime (ModTime d) then h
                else h(''Last-Modified'' \<mapsto> [Format_TimeFormat lib (ModTime d)]))
               (''Content-Type'' \<mapsto> [''text/plain; charset=utf-8''],
                ''X-Content-Type-Options'' \<mapsto> [''nosniff'']),
             w_status = Some 500,
             w_body = ''Error reading directory'' @ [CHR 0x0A]\<rparr>,
          [Clean (requestPath r), indexName (Clean (requestPath r))])"
    using a by (simp add: setLastModified_fresh dirList_unwritten newline_def)
qed

theorem error_responses_witness:
  "ServeHTTP exampleLib exampleFS (fresh Map.empty) (exampleRequest ''GET'' ''/gone'' [] Map.empty) =
     (Written
        \<lparr>w_header = [''Content-Type'' \<mapsto> [''text/plain; charset=utf-8''],
                      ''X-Content-Type-Options'' \<mapsto> [''nosniff'']],
         w_status = Some 404, w_body = ''404 page not found'' @ [CHR 0x0A]\<rparr>, [''/gone''])
   \<and> ServeHTTP exampleLib exampleFS (fresh Map.empty) (exampleRequest ''GET'' ''/secret'' [] Map.empty) =
     (Written
        \<lparr>w_header = [''Content-Type'' \<mapsto> [''text/plain; charset=utf-8''],
                      ''X-Content-Type-Options'' \<mapsto> [''nosniff'']],
         w_status = Some 403, w_body = ''403 Forbidden'' @ [CHR 0x0A]\<rparr>, [''/secret''])
   \<and> ServeHTTP exampleLib exampleFS (fresh Map.empty) (exampleRequest ''GET'' ''/odd'' [] Map.empty) =
     (Written
        \<lparr>w_header = [''Content-Type'' \<mapsto> [''text/plain; charset=utf-8''],
                      ''X-Content-Type-Options'' \<mapsto> [''nosniff'']],
         w_status = Some 500, w_body = ''500 Internal Server Error'' @ [CHR 0x0A]\<rparr>, [''/odd''])
   \<and> ServeHTTP exampleLib exampleFS (fresh Map.empty) (exampleRequest ''GET'' ''/broken/'' [] Map.empty) =
     (Written
        \<lparr>w_header = [''Last-Modified'' \<mapsto> [exampleDate],
                      ''Content-Type'' \<mapsto> [''text/plain; charset=utf-8''],
                      ''X-Content-Type-Options'' \<mapsto> [''nosniff'']],
         w_status = Some 500, w_body = ''Error reading directory'' @ [CHR 0x0A]\<rparr>,
      [''/broken'', ''/broken/index.html''])"
proof -
  let ?broken = "\<lparr>Stat = Inr (exampleInfo ''broken'' True exampleModTime),
             Readdir = Inl (OSError Other ''readdirent /srv/broken: input/output error'')\<rparr>"
  note gone = error_responses [of "exampleRequest ''GET'' ''/gone'' [] Map.empty" exampleFS
      NotExist "''open /srv/gone: no such file or directory''" exampleLib Map.empty]
  note secret = error_responses [of "exampleRequest ''GET'' ''/secret'' [] Map.empty" exampleFS
      Permission "''open /srv/secret: permission denied''" exampleLib Map.empty]
  note odd = error_responses [of "exampleRequest ''GET'' ''/odd'' [] Map.empty" exampleFS
      Other "''stat /srv/odd: stale file handle''" exampleLib Map.empty]
  note broken = error_responses [of "exampleRequest ''GET'' ''/broken/'' [] Map.empty" exampleFS
      Other "''readdirent /srv/broken: input/output error''" exampleLib Map.empty
      ?broken "exampleInfo ''broken'' True exampleModTime"]
  have 1: "ServeHTTP exampleLib exampleFS (fresh Map.empty) (exampleRequest ''GET'' ''/gone'' [] Map.empty) =
     (Written
        \<lparr>w_header = [''Content-Type'' \<mapsto> [''text/plain; charset=utf-8''],
                      ''X-Content-Type-Options'' \<mapsto> [''nosniff'']],
         w_status = Some 404, w_body = ''404 page not found'' @ [CHR 0x0A]\<rparr>, [''/gone''])"
    using gone [THEN conjunct1]
    by (simp add: Clean_examples exampleFS_def HasSuffix_def)
  have 2: "ServeHTTP exampleLib exampleFS (fresh Map.empty) (exampleRequest ''GET'' ''/secret'' [] Map.empty) =
     (Written
        \<lparr>w_header = [''Content-Type'' \<mapsto> [''text/plain; charset=utf-8''],
                      ''X-Content-Type-Options'' \<mapsto> [''nosniff'']],
         w_status = Some 403, w_body = ''403 Forbidden'' @ [CHR 0x0A]\<rparr>, [''/secret''])"
    using secret [THEN conjunct1]
    by (simp add: Clean_examples exampleFS_def HasSuffix_def)
  have 3: "ServeHTTP exampleLib exampleFS (fresh Map.empty) (exampleRequest ''GET'' ''/odd'' [] Map.empty) =
     (Written
        \<lparr>w_header = [''Content-Type'' \<mapsto> [''text/plain; charset=utf-8''],
                      ''X-Content-Type-Options'' \<mapsto> [''nosniff'']],
         w_status = Some 500, w_body = ''500 Internal Server Error'' @ [CHR 0x0A]\<rparr>, [''/odd''])"
    using odd [THEN conjunct1]
    by (simp add: Clean_examples exampleFS_def HasSuffix_def)
  have 4: "ServeHTTP exampleLib exampleFS (fresh Map.empty) (exampleRequest ''GET'' ''/broken/'' [] Map.empty) =
     (Written
        \<lparr>w_header = [''Last-Modified'' \<mapsto> [exampleDate],
                      ''Content-Type'' \<mapsto> [''text/plain; charset=utf-8''],
                      ''X-Content-Type-Options'' \<mapsto> [''nosniff'']],
         w_status = Some 500, w_body = ''Error reading directory'' @ [CHR 0x0A]\<rparr>,
      [''/broken'', ''/broken/index.html''])"
    using broken [THEN conjunct2]
    by (simp add: Clean_examples exampleFS_def noIndex_examples indexName_examples
          checkIfModifiedSince_no_header exampleInfo_def isZeroTime_example Format_example)
  show ?thesis using 1 2 3 4 by simp
qed

text \<open>
  The specification asks for the line \<^verbatim>\<open>500 Internal Server Error\<close> on a
  directory-listing read failure as well. On a directory whose \<^verbatim>\<open>Readdir\<close> fails the
  body is \<^verbatim>\<open>Error reading directory\<close>, which does not end with that phrase.
\<close>

theorem error_responses_counterexample:
  "ServeHTTP exampleLib exampleFS (fresh Map.empty) (exampleRequest ''GET'' ''/broken/'' [] Map.empty) =
     (Written
        \<lparr>w_header = [''Last-Modified'' \<mapsto> [exampleDate],
                      ''Content-Type'' \<mapsto> [''text/plain; charset=utf-8''],
                      ''X-Content-Type-Options'' \<mapsto> [''nosniff'']],
         w_status = Some 500, w_body = ''Error reading directory'' @ [CHR 0x0A]\<rparr>,
      [''/broken'', ''/broken/index.html''])
   \<and> \<not> HasSuffix (''Error reading directory'' @ [CHR 0x0A])
           (''500 Internal Server Error'' @ [CHR 0x0A])
   \<and> \<not> HasSuffix ''Error reading directory'' ''500 Internal Server Error''"
  using broken_listing by (simp add: HasSuffix_def)

subsection \<open>The redirect of a directory without trailing slash\<close>




subsection \<open>Canonical requests\<close>

text \<open>
  C9, as the code has it. A request is canonical when its path does not end in
  \<^verbatim>\<open>/index.html\<close> and, if its entry opens and answers \<^verbatim>\<open>Stat\<close>, the path ends in a slash
  exactly when the entry is a directory. The handler issues a redirect exactly for the
  requests that are not canonical; so a canonical request is never redirected (it gets
  an error response, a not-modified response, a listing, or is handed to
  \<^verbatim>\<open>http.ServeContent\<close>).
\<close>

theorem redirect_iff_not_canonical:
  "isRedirect (fst (ServeHTTP lib root (fresh h) r)) =
     (HasSuffix (requestPath r) ''/index.html''
      \<or> (\<exists>f d. root (Clean (requestPath r)) = Inr f \<and> Stat f = Inr d
                \<and> IsDir d = (last (requestPath r) \<noteq> CHR ''/'')))"
proof (cases "HasSuffix (requestPath r) indexPage")
  case True
  then show ?thesis by (simp add: ServeHTTP_index_suffix indexPage_def)
next
  case n: False
  show ?thesis
  proof (cases "root (Clean (requestPath r))")
    case (Inl err)
    then show ?thesis using n by (simp add: ServeHTTP_open_error indexPage_def)
  next
    case (Inr f)
    show ?thesis
    proof (cases "Stat f")
      case (Inl err)
      then show ?thesis using n Inr by (simp add: ServeHTTP_stat_error indexPage_def)
    next
      case st: (Inr d)
      consider (a) "IsDir d" "last (requestPath r) \<noteq> CHR ''/''"
        | (b) "\<not> IsDir d" "last (requestPath r) = CHR ''/''"
        | (c) "\<not> IsDir d" "last (requestPath r) \<noteq> CHR ''/''"
        | (d) "IsDir d" "last (requestPath r) = CHR ''/''"
        by blast
      then show ?thesis
      proof cases
        case a
        then show ?thesis using n Inr st
          by (simp add: ServeHTTP_dir_no_slash [of r root f d] indexPage_def)
      next
        case b
        then show ?thesis using n Inr st
          by (simp add: ServeHTTP_file_slash [of r root f d] indexPage_def)
      next
        case c
        then show ?thesis using n Inr st
          by (simp add: ServeHTTP_file [of r root f d] indexPage_def)
      next
        case d
        then show ?thesis using n Inr st
          by (simp add: ServeHTTP_dir_slash [of r root f d] indexPage_def split: sum.splits)
      qed
    qed
  qed
qed

theorem redirect_iff_not_canonical_witness:
  "\<not> isRedirect (fst (ServeHTTP exampleLib exampleFS (fresh Map.empty)
      (exampleRequest ''GET'' ''/notes'' [] Map.empty)))
   \<and> \<not> isRedirect (fst (ServeHTTP exampleLib exampleFS (fresh Map.empty)
      (exampleRequest ''GET'' ''/docs/'' [] Map.empty)))
   \<and> isRedirect (fst (ServeHTTP exampleLib exampleFS (fresh Map.empty)
      (exampleRequest ''GET'' ''/docs'' [] Map.empty)))"
  using redirect_iff_not_canonical [of exampleLib exampleFS Map.empty
      "exampleRequest ''GET'' ''/notes'' [] Map.empty"]
    redirect_iff_not_canonical [of exampleLib exampleFS Map.empty
      "exampleRequest ''GET'' ''/docs/'' [] Map.empty"]
    redirect_iff_not_canonical [of exampleLib exampleFS Map.empty
      "exampleRequest ''GET'' ''/docs'' [] Map.empty"]
  by (simp add: Clean_examples open_example HasSuffix_def)

text \<open>
  The specification adds that one redirect hop always reaches a request that is not
  redirected again. With a regular file \<^verbatim>\<open>/notes\<close>, the request \<^verbatim>\<open>/notes/index.html\<close> is
  redirected to \<^verbatim>\<open>./\<close>, that is to \<^verbatim>\<open>/notes/\<close>, and \<^verbatim>\<open>/notes/\<close> is redirected again, to
  \<^verbatim>\<open>../notes\<close>.
\<close>

theorem redirect_iff_not_canonical_counterexample:
  "isRedirect (fst (ServeHTTP exampleLib exampleFS (fresh Map.empty)
      (exampleRequest ''GET'' ''/notes/index.html'' [] Map.empty)))
   \<and> followRedirect (exampleRequest ''GET'' ''/notes/index.html'' [] Map.empty)
        (location (fst (ServeHTTP exampleLib exampleFS (fresh Map.empty)
           (exampleRequest ''GET'' ''/notes/index.html'' [] Map.empty))))
       = exampleRequest ''GET'' ''/notes/'' [] Map.empty
   \<and> isRedirect (fst (ServeHTTP exampleLib exampleFS (fresh Map.empty)
      (exampleRequest ''GET'' ''/notes/'' [] Map.empty)))
   \<and> location (fst (ServeHTTP exampleLib exampleFS (fresh Map.empty)
      (exampleRequest ''GET'' ''/notes/'' [] Map.empty))) = ''../notes''"
  by (simp add: notes_index_redirect notes_slash_redirect followRedirect_examples Get_def
        StatusMovedPermanently_def)

subsection \<open>The directory listing\<close>



subsection \<open>The anchor of a child\<close>

text \<open>
  C7. In the listing that \<^verbatim>\<open>ServeHTTP\<close> writes for a directory, the line of each child is
  an anchor. Its visible text is the child's name, with a slash appended for a directory,
  where each of the five characters \<^verbatim>\<open>&\<close>, \<^verbatim>\<open><\<close>, \<^verbatim>\<open>>\<close>, the double quote and the single
  quote is replaced by its entity (\<^verbatim>\<open>&amp;\<close>, \<^verbatim>\<open>&lt;\<close>, \<^verbatim>\<open>&gt;\<close>, \<^verbatim>\<open>&#34;\<close>, \<^verbatim>\<open>&#39;\<close>)
  and every other byte is kept. Its href is the same name encoded as a URL path: letters,
  digits and the bytes of \<^verbatim>\<open>-_.~$&+,/:;=@\<close> are kept, so an ampersand stays an ampersand,
  and every other byte, \<^verbatim>\<open>?\<close> and \<^verbatim>\<open>#\<close> among them, becomes a percent sign and two
  upper-case hexadecimal digits (\<^verbatim>\<open>./\<close> is put in front when the first segment holds a
  colon, and the name \<^verbatim>\<open>*\<close> is left as it is). A file named \<^verbatim>\<open>a&<b>.txt\<close> renders the
  text \<^verbatim>\<open>a&amp;&lt;b&gt;.txt\<close> and the href \<^verbatim>\<open>a&%3Cb%3E.txt\<close>.
\<close>

theorem listing_anchors:
  assumes "last (requestPath r) = CHR ''/''"
    and "root (Clean (requestPath r)) = Inr f" and "Stat f = Inr d" and "IsDir d"
    and "noIndex root (Clean (requestPath r))"
    and "checkIfModifiedSince lib r (ModTime d) \<noteq> condFalse"
    and "Readdir f = Inr dirs"
  shows "\<exists>ds. mset ds = mset dirs \<and> sorted (map Name ds)
         \<and> fst (ServeHTTP lib root (fresh h) r) =
           Written
             \<lparr>w_header =
                (if isZeroTime (ModTime d) then h
                 else h(''Last-Modified'' \<mapsto> [Format_TimeFormat lib (ModTime d)]))
                (''Content-Type'' \<mapsto> [''text/html; charset=utf-8'']),
              w_status = Some 200,
              w_body = ''<pre>'' @ [CHR 0x0A]
                @ concat (map (\<lambda>d. let nm = Name d @ (if IsDir d then ''/'' else []);
                          enc = (if nm = ''*'' then ''*'' else concat (map (\<lambda>c. if (97 \<le> (of_char c :: nat) \<and> (of_char c :: nat) \<le> 122
                                  \<or> 65 \<le> (of_char c :: nat) \<and> (of_char c :: nat) \<le> 90
                                  \<or> 48 \<le> (of_char c :: nat) \<and> (of_char c :: nat) \<le> 57
                                  \<or> c \<in> set ''-_.~$&+,/:;=@'')
                               then [c]
                               else [CHR ''%'', ''0123456789ABCDEF'' ! (of_char c div 16),
                                     ''0123456789ABCDEF'' ! (of_char c mod 16)]) nm));
                          href = (if CHR '':'' \<in> set (takeWhile (\<lambda>c. c \<noteq> CHR ''/'') enc) then ''./'' else []) @ enc;
                          vis = concat (map (\<lambda>c. if c = CHR ''&'' then ''&amp;'' else if c = CHR ''<'' then ''&lt;''
                               else if c = CHR ''>'' then ''&gt;'' else if c = CHR 0x22 then ''&#34;''
                               else if c = CHR 0x27 then ''&#39;'' else [c]) nm)
                      in ''<a href='' @ [CHR 0x22] @ href @ [CHR 0x22] @ ''>'' @ vis @ ''</a>'' @ [CHR 0x0A]) ds)
                @ ''</pre>'' @ [CHR 0x0A]\<rparr>"
proof (intro exI conjI)
  show "mset (sort_Slice (\<lambda>a b. Name a < Name b) dirs) = mset dirs"
    by (rule sort_Slice_mset)
  show "sorted (map Name (sort_Slice (\<lambda>a b. Name a < Name b) dirs))"
    by (rule sort_Slice_sorted)
  show "fst (ServeHTTP lib root (fresh h) r) =
           Written
             \<lparr>w_header =
                (if isZeroTime (ModTime d) then h
                 else h(''Last-Modified'' \<mapsto> [Format_TimeFormat lib (ModTime d)]))
                (''Content-Type'' \<mapsto> [''text/html; charset=utf-8'']),
              w_status = Some 200,
              w_body = ''<pre>'' @ [CHR 0x0A]
                @ concat (map (\<lambda>d. let nm = Name d @ (if IsDir d then ''/'' else []);
                          enc = (if nm = ''*'' then ''*'' else concat (map (\<lambda>c. if (97 \<le> (of_char c :: nat) \<and> (of_char c :: nat) \<le> 122
                                  \<or> 65 \<le> (of_char c :: nat) \<and> (of_char c :: nat) \<le> 90
                                  \<or> 48 \<le> (of_char c :: nat) \<and> (of_char c :: nat) \<le> 57
                                  \<or> c \<in> set ''-_.~$&+,/:;=@'')
                               then [c]
                               else [CHR ''%'', ''0123456789ABCDEF'' ! (of_char c div 16),
                                     ''0123456789ABCDEF'' ! (of_char c mod 16)]) nm));
                          href = (if CHR '':'' \<in> set (takeWhile (\<lambda>c. c \<noteq> CHR ''/'') enc) then ''./'' else []) @ enc;
                          vis = concat (map (\<lambda>c. if c = CHR ''&'' then ''&amp;'' else if c = CHR ''<'' then ''&lt;''
                               else if c = CHR ''>'' then ''&gt;'' else if c = CHR 0x22 then ''&#34;''
                               else if c = CHR 0x27 then ''&#39;'' else [c]) nm)
                      in ''<a href='' @ [CHR 0x22] @ href @ [CHR 0x22] @ ''>'' @ vis @ ''</a>'' @ [CHR 0x0A]) (sort_Slice (\<lambda>a b. Name a < Name b) dirs))
                @ ''</pre>'' @ [CHR 0x0A]\<rparr>"
    using ServeHTTP_listing_body [OF assms]
    unfolding anchor_explicit by (simp add: newline_def)
qed

theorem listing_anchors_witness:
  "fst (ServeHTTP exampleLib namesFS (fresh Map.empty) (exampleRequest ''GET'' ''/'' [] Map.empty)) =
     Written
       \<lparr>w_header = [''Last-Modified'' \<mapsto> [exampleDate],
                     ''Content-Type'' \<mapsto> [''text/html; charset=utf-8'']],
        w_status = Some 200,
        w_body = ''<pre>'' @ [CHR 0x0A]
          @ ''<a href='' @ [CHR 0x22] @ ''a&%3Cb%3E.txt'' @ [CHR 0x22]
            @ ''>a&amp;&lt;b&gt;.txt</a>'' @ [CHR 0x0A]
          @ ''<a href='' @ [CHR 0x22] @ ''it%27s'' @ [CHR 0x22] @ ''>it&#39;s</a>'' @ [CHR 0x0A]
          @ ''<a href='' @ [CHR 0x22] @ ''what%3F%23.d/'' @ [CHR 0x22] @ ''>what?#.d/</a>''
            @ [CHR 0x0A]
          @ ''</pre>'' @ [CHR 0x0A]\<rparr>"
proof -
  obtain ds where ds: "mset ds = mset namesChildren" "sorted (map Name ds)"
    and body: "fst (ServeHTTP exampleLib namesFS (fresh Map.empty) (exampleRequest ''GET'' ''/'' [] Map.empty)) =
           Written
             \<lparr>w_header =
                (if isZeroTime (ModTime (exampleInfo ''/'' True exampleModTime)) then Map.empty
                 else Map.empty(''Last-Modified'' \<mapsto> [Format_TimeFormat exampleLib (ModTime (exampleInfo ''/'' True exampleModTime))]))
                (''Content-Type'' \<mapsto> [''text/html; charset=utf-8'']),
              w_status = Some 200,
              w_body = ''<pre>'' @ [CHR 0x0A]
                @ concat (map (\<lambda>d. let nm = Name d @ (if IsDir d then ''/'' else []);
                          enc = (if nm = ''*'' then ''*'' else concat (map (\<lambda>c. if (97 \<le> (of_char c :: nat) \<and> (of_char c :: nat) \<le> 122
                                  \<or> 65 \<le> (of_char c :: nat) \<and> (of_char c :: nat) \<le> 90
                                  \<or> 48 \<le> (of_char c :: nat) \<and> (of_char c :: nat) \<le> 57
                                  \<or> c \<in> set ''-_.~$&+,/:;=@'')
                               then [c]
                               else [CHR ''%'', ''0123456789ABCDEF'' ! (of_char c div 16),
                                     ''0123456789ABCDEF'' ! (of_char c mod 16)]) nm));
                          href = (if CHR '':'' \<in> set (takeWhile (\<lambda>c. c \<noteq> CHR ''/'') enc) then ''./'' else []) @ enc;
                          vis = concat (map (\<lambda>c. if c = CHR ''&'' then ''&amp;'' else if c = CHR ''<'' then ''&lt;''
                               else if c = CHR ''>'' then ''&gt;'' else if c = CHR 0x22 then ''&#34;''
                               else if c = CHR 0x27 then ''&#39;'' else [c]) nm)
                      in ''<a href='' @ [CHR 0x22] @ href @ [CHR 0x22] @ ''>'' @ vis @ ''</a>'' @ [CHR 0x0A]) ds)
                @ ''</pre>'' @ [CHR 0x0A]\<rparr>"
    using listing_anchors [of "exampleRequest ''GET'' ''/'' [] Map.empty" namesFS
        "exampleDir ''/'' exampleModTime namesChildren" "exampleInfo ''/'' True exampleModTime"
        exampleLib namesChildren Map.empty]
    by (auto simp: names_root checkIfModifiedSince_no_header)
  have "ds = sort_Slice (\<lambda>a b. Name a < Name b) namesChildren"
    using sorted_permutation_unique [OF names_distinct ds] .
  then show ?thesis
    unfolding body
    by (simp add: names_sorted isZeroTime_example Format_example Let_def)
qed

subsection \<open>The names given to the file system\<close>

text \<open>
  C6. Whatever the raw request path, every name the handler gives to \<^verbatim>\<open>fs.Open\<close> is the
  cleaned request path or the index name built from it; it starts with a slash, it is
  lexically cleaned (cut at its slashes it has no empty segment, no dot segment and no
  two-dot segment, the root alone excepted), and cleaning it again changes nothing. So the
  file system is never consulted with a path that is not normalized.
\<close>

theorem opened_paths_cleaned:
  "set (snd (ServeHTTP lib root w r))
     \<subseteq> {Clean (requestPath r), indexName (Clean (requestPath r))}
   \<and> (\<forall>name \<in> set (snd (ServeHTTP lib root w r)).
        hd name = CHR ''/'' \<and> cleanedAbs name \<and> Clean name = name)"
proof -
  obtain segs where segs: "Clean (requestPath r) = joinAbs segs" "list_all goodSegment segs"
    using Clean_rooted [OF requestPath_nonempty requestPath_hd] by blast
  have idx: "indexName (Clean (requestPath r)) = joinAbs (segs @ [''index.html''])"
      "list_all goodSegment (segs @ [''index.html''])"
    using segs indexName_joinAbs good_index by simp_all
  have "hd name = CHR ''/'' \<and> cleanedAbs name \<and> Clean name = name"
    if "name \<in> {Clean (requestPath r), indexName (Clean (requestPath r))}" for name
    using that segs idx cleanedAbs_joinAbs Clean_joinAbs by auto
  then show ?thesis using opened_names [of lib root w r] by blast
qed

theorem opened_paths_cleaned_witness:
  "snd (ServeHTTP exampleLib exampleFS (fresh Map.empty)
      (exampleRequest ''GET'' ''/../../etc/passwd'' [] Map.empty)) = [''/etc/passwd'']
   \<and> cleanedAbs ''/etc/passwd'' \<and> Clean ''/etc/passwd'' = ''/etc/passwd''
   \<and> snd (ServeHTTP exampleLib exampleFS (fresh Map.empty)
      (exampleRequest ''GET'' ''/docs/../docs/./sub//'' [] Map.empty))
     = [''/docs/sub'', ''/docs/sub/index.html'']
   \<and> cleanedAbs ''/docs/sub'' \<and> cleanedAbs ''/docs/sub/index.html''
   \<and> Clean ''/docs/sub/index.html'' = ''/docs/sub/index.html''"
  using opened_paths_cleaned [of exampleLib exampleFS "fresh Map.empty"
      "exampleRequest ''GET'' ''/../../etc/passwd'' [] Map.empty"]
    opened_paths_cleaned [of exampleLib exampleFS "fresh Map.empty"
      "exampleRequest ''GET'' ''/docs/../docs/./sub//'' [] Map.empty"]
  by (simp add: opened_examples)

end
